theory Spec2Isabelle
  imports Main "HOL-Library.Sublist" "HOL-Library.Multiset"
begin

section \<open>Go library primitives used by the scraper\<close>

text \<open>
  A Go string is a sequence of bytes; it is modelled as a \<open>string\<close> (a list of 8-bit
  characters). The functions below follow the Go standard library for the calls the
  scraper makes: \<open>strings.Split\<close> with a one-byte separator, \<open>strings.Contains\<close>,
  \<open>strings.HasSuffix\<close>, \<open>strings.Replace\<close> with \<open>n = 1\<close>, \<open>strings.TrimSpace\<close>,
  \<open>path.Clean\<close> and \<open>path.Join\<close>.
\<close>

text \<open>\<open>strings.Split(s, sep)\<close> for a separator of one byte: never an empty slice.\<close>

fun strings_Split :: "char \<Rightarrow> string \<Rightarrow> string list" where
  "strings_Split c [] = [[]]"
| "strings_Split c (x # xs) =
     (if x = c then [] # strings_Split c xs
      else (case strings_Split c xs of
              [] \<Rightarrow> [[x]]
            | w # ws \<Rightarrow> (x # w) # ws))"

text \<open>\<open>strings.Contains(s, substr)\<close>: \<open>substr\<close> occurs in \<open>s\<close> as a contiguous block.\<close>

fun strings_Contains :: "string \<Rightarrow> string \<Rightarrow> bool" where
  "strings_Contains [] sub = (sub = [])"
| "strings_Contains (x # xs) sub = (prefix sub (x # xs) \<or> strings_Contains xs sub)"

definition strings_HasSuffix :: "string \<Rightarrow> string \<Rightarrow> bool" where
  "strings_HasSuffix s suf = suffix suf s"

text \<open>\<open>strings.Replace(s, old, new, 1)\<close>: the first occurrence of \<open>old\<close> is replaced.\<close>

fun strings_Replace1 :: "string \<Rightarrow> string \<Rightarrow> string \<Rightarrow> string" where
  "strings_Replace1 [] old new = (if old = [] then new else [])"
| "strings_Replace1 (x # xs) old new =
     (if prefix old (x # xs) then new @ drop (length old) (x # xs)
      else x # strings_Replace1 xs old new)"

text \<open>
  The white space of \<open>unicode.IsSpace\<close>, each rune as its UTF-8 bytes: the six ASCII
  ones, U+0085, U+00A0, U+1680, U+2000 to U+200A, U+2028, U+2029, U+202F, U+205F and
  U+3000.
\<close>

definition space_runes :: "string list" where
  "space_runes =
     [[CHR 0x09], [CHR 0x0A], [CHR 0x0B], [CHR 0x0C], [CHR 0x0D], [CHR 0x20],
      [CHR 0xC2, CHR 0x85], [CHR 0xC2, CHR 0xA0],
      [CHR 0xE1, CHR 0x9A, CHR 0x80],
      [CHR 0xE2, CHR 0x80, CHR 0x80], [CHR 0xE2, CHR 0x80, CHR 0x81],
      [CHR 0xE2, CHR 0x80, CHR 0x82], [CHR 0xE2, CHR 0x80, CHR 0x83],
      [CHR 0xE2, CHR 0x80, CHR 0x84], [CHR 0xE2, CHR 0x80, CHR 0x85],
      [CHR 0xE2, CHR 0x80, CHR 0x86], [CHR 0xE2, CHR 0x80, CHR 0x87],
      [CHR 0xE2, CHR 0x80, CHR 0x88], [CHR 0xE2, CHR 0x80, CHR 0x89],
      [CHR 0xE2, CHR 0x80, CHR 0x8A],
      [CHR 0xE2, CHR 0x80, CHR 0xA8], [CHR 0xE2, CHR 0x80, CHR 0xA9],
      [CHR 0xE2, CHR 0x80, CHR 0xAF], [CHR 0xE2, CHR 0x81, CHR 0x9F],
      [CHR 0xE3, CHR 0x80, CHR 0x80]]"

text \<open>Dropping the leading runes of a set: the loop of \<open>strings.TrimLeftFunc\<close>.\<close>

function trim_left :: "string list \<Rightarrow> string \<Rightarrow> string" where
  "trim_left rs s =
     (case find (\<lambda>r. r \<noteq> [] \<and> prefix r s) rs of
        None \<Rightarrow> s
      | Some r \<Rightarrow> trim_left rs (drop (length r) s))"
  by pat_completeness auto
termination
proof (relation "measure (\<lambda>(rs, s). length s)")
  show "wf (measure (\<lambda>(rs, s). length s))" by simp
next
  fix rs :: "string list" and s r :: string
  assume "find (\<lambda>r. r \<noteq> [] \<and> prefix r s) rs = Some r"
  then have "r \<noteq> [] \<and> prefix r s" by (auto simp: find_Some_iff)
  then have "0 < length r" "length r \<le> length s" by (auto simp: prefix_length_le)
  then have "length s - length r < length s" by arith
  then show "((rs, drop (length r) s), (rs, s)) \<in> measure (\<lambda>(rs, s). length s)" by simp
qed

declare trim_left.simps [simp del]

definition strings_TrimSpace :: "string \<Rightarrow> string" where
  "strings_TrimSpace s =
     rev (trim_left (map rev space_runes) (rev (trim_left space_runes s)))"

text \<open>
  \<open>path.Clean\<close>, on the components between slashes: empty components and \<open>.\<close> are
  dropped, a \<open>..\<close> removes the component before it, is dropped at the root of a rooted
  path and is kept at the front of a relative one; an empty result is \<open>.\<close>.
\<close>

definition clean_step :: "bool \<Rightarrow> string list \<Rightarrow> string \<Rightarrow> string list" where
  "clean_step rooted out c =
     (if c = [] \<or> c = ''.'' then out
      else if c = ''..'' then
        (if out \<noteq> [] \<and> last out \<noteq> ''..'' then butlast out
         else if rooted then out
         else out @ [''..''])
      else out @ [c])"

fun join_slash :: "string list \<Rightarrow> string" where
  "join_slash [] = []"
| "join_slash [c] = c"
| "join_slash (c # d # cs) = c @ CHR ''/'' # join_slash (d # cs)"

definition path_Clean :: "string \<Rightarrow> string" where
  "path_Clean p =
     (if p = [] then ''.''
      else let rooted = (hd p = CHR ''/'');
               body = join_slash (foldl (clean_step rooted) [] (strings_Split CHR ''/'' p));
               r = (if rooted then CHR ''/'' # body else body)
           in if r = [] then ''.'' else r)"

text \<open>\<open>path.Join\<close>: empty elements are ignored, the rest joined by slashes and cleaned.\<close>

definition path_Join :: "string list \<Rightarrow> string" where
  "path_Join elem =
     (let es = filter (\<lambda>e. e \<noteq> []) elem
      in if es = [] then [] else path_Clean (join_slash es))"

text \<open>The final path segment of a link or a path.\<close>

definition final_segment :: "string \<Rightarrow> string" where
  "final_segment p = last (strings_Split CHR ''/'' p)"

text \<open>\<open>fmt.Sprintf("%v", n)\<close> for an \<open>int\<close>: the decimal digits, with a sign.\<close>

fun fmt_nat :: "nat \<Rightarrow> string" where
  "fmt_nat n = (if n < 10 then [char_of (48 + n)] else fmt_nat (n div 10) @ [char_of (48 + n mod 10)])"

declare fmt_nat.simps [simp del]

definition fmt_int :: "int \<Rightarrow> string" where
  "fmt_int i = (if i < 0 then CHR ''-'' # fmt_nat (nat (- i)) else fmt_nat (nat i))"

section \<open>The data model\<close>

text \<open>The ways the process stops abnormally.\<close>

datatype panic =
    NilPointerDereference
  | LogPanic
  | LogFatal
  | SendOnClosedChannel
  | NegativeWaitGroupCounter
  | SemaphoreReleasedMoreThanHeld
  | AssignmentToNilMap

datatype DownloadState = DOWNLOADING | SUCCESS | SKIPPED | FAILED

record Author =
  author_link :: string
  author_name :: string

record Image =
  author :: Author
  post_id :: string
  imageId :: string
  postLink :: string
  link :: string
  title :: string
  subreddit :: string
  source :: string

text \<open>The zero value of \<open>Image\<close>: what \<open>make([]Image, n)\<close> fills a slice with.\<close>

definition zero_Image :: Image where
  "zero_Image =
     \<lparr>author = \<lparr>author_link = [], author_name = []\<rparr>, post_id = [], imageId = [],
      postLink = [], link = [], title = [], subreddit = [], source = []\<rparr>"

type_synonym updateState = "Image \<times> DownloadState"

text \<open>The feed response of json.go: every field is a pointer, \<open>None\<close> when absent.\<close>

record ChildData =
  Title :: "string option"
  Domain :: "string option"
  ID :: "string option"
  AuthorName :: "string option"
  Permalink :: "string option"
  PostHint :: "string option"
  URL :: "string option"
  Subreddit :: "string option"

record Child =
  Child_Data :: "ChildData option"

record ListingData =
  Dist :: "int option"
  Children :: "Child list"

record Listings =
  Listings_Data :: "ListingData option"

record Options =
  OutputDirectory :: string
  ImageLimit :: int
  FrontPage :: bool
  PageType :: string
  Subreddits :: "string list"
  MaxConcurrentDownloads :: int
  RootFolderOnly :: bool

definition zero_Options :: Options where
  "zero_Options =
     \<lparr>OutputDirectory = [], ImageLimit = 0, FrontPage = False, PageType = [],
      Subreddits = [], MaxConcurrentDownloads = 0, RootFolderOnly = False\<rparr>"

text \<open>
  The scraper. Its two channels are not data: they are the queue and the message stream
  of the pipeline state below.
\<close>

record Scraper =
  after :: int
  scrapingOptions :: Options
  supportedPageTypes :: "string \<Rightarrow> bool"
  uniqueImageIds :: "string \<rightharpoonup> (string \<rightharpoonup> bool)"

section \<open>json.go\<close>

definition redditChildToImage :: "Child \<Rightarrow> panic + Image" where
  "redditChildToImage child =
     (case Child_Data child of
        None \<Rightarrow> Inl NilPointerDereference
      | Some d \<Rightarrow>
          (case URL d of
             None \<Rightarrow> Inl NilPointerDereference
           | Some url \<Rightarrow>
               (let splitUrl = strings_Split CHR ''/'' url;
                    imgId = hd (strings_Split CHR ''.'' (last splitUrl))
                in case (AuthorName d, ID d, Permalink d, Title d, Subreddit d, Domain d) of
                     (Some au, Some i, Some pl, Some t, Some sr, Some dm) \<Rightarrow>
                       Inr \<lparr>author = \<lparr>author_link = ''https://www.reddit.com/user/'' @ au @ ''/'',
                                       author_name = au\<rparr>,
                            post_id = i, imageId = imgId, postLink = pl, link = url,
                            title = t, subreddit = sr, source = dm\<rparr>
                   | _ \<Rightarrow> Inl NilPointerDereference)))"

section \<open>scraper.go: construction\<close>

definition supported_page_types :: "string list" where
  "supported_page_types =
     [''hot'', ''new'', ''rising'', ''best'',
      ''top-hour'', ''top-week'', ''top-month'', ''top-year'', ''top-all'', ''top'',
      ''controversial-hour'', ''controversial-week'', ''controversial-month'',
      ''controversial-year'', ''controversial-all'', ''controversial'']"

text \<open>
  \<open>NewScraper\<close>. An invalid page type ends the process (\<open>log.Fatalf\<close>). The write of 50
  goes to the scraper's own options field, and the last statement replaces that field
  by \<open>options\<close>.
\<close>

definition NewScraper :: "Options \<Rightarrow> panic + Scraper" where
  "NewScraper options =
     (let redditScraper =
            \<lparr>after = 0, scrapingOptions = zero_Options,
             supportedPageTypes = (\<lambda>t. t \<in> set supported_page_types),
             uniqueImageIds = Map.empty\<rparr>
      in if \<not> supportedPageTypes redditScraper (PageType options) then Inl LogFatal
         else
           let options1 = (if ImageLimit options > 100 then options\<lparr>ImageLimit := 100\<rparr>
                           else options);
               redditScraper1 =
                 (if ImageLimit options1 \<le> 0 \<or> ImageLimit options1 > 500
                  then redditScraper\<lparr>scrapingOptions :=
                         (scrapingOptions redditScraper)\<lparr>ImageLimit := 50\<rparr>\<rparr>
                  else redditScraper);
               options2 = (if FrontPage options1
                           then options1\<lparr>Subreddits := Subreddits options1 @ [''frontpage'']\<rparr>
                           else options1)
           in Inr (redditScraper1\<lparr>scrapingOptions := options2\<rparr>))"

section \<open>The outside world\<close>

text \<open>
  The network, the JSON decoder and the file system are outside the program. Each call
  the scraper makes to them is a field of the record: what the call answers for its
  argument. \<open>client_Do\<close> is \<open>None\<close> on a network error and the body read otherwise;
  \<open>new_request_ok\<close> says whether \<open>http.NewRequest\<close> accepts the URL (its error is
  dropped by the source, which then uses the request); \<open>json_Unmarshal\<close> is the
  listing decoded and whether an error came with it; \<open>stat_IsNotExist\<close> is
  \<open>os.IsNotExist\<close> of the error of \<open>os.Stat\<close>.
\<close>

record world =
  new_request_ok :: "string \<Rightarrow> bool"
  client_Do :: "string \<Rightarrow> string option"
  body_Close_ok :: "string \<Rightarrow> bool"
  json_Unmarshal :: "string \<Rightarrow> Listings \<times> bool"
  stat_IsNotExist :: "string \<Rightarrow> bool"
  os_Create_ok :: "string \<Rightarrow> bool"
  http_Get_ok :: "string \<Rightarrow> bool"
  io_Copy_ok :: "string \<Rightarrow> bool"
  file_Close_ok :: "string \<Rightarrow> bool"

datatype io_call =
    Stat string
  | Create string
  | HttpGet string
  | Copy string
  | CloseBody string
  | CloseFile string

section \<open>scraper.go: the metadata fetcher\<close>

text \<open>
  \<open>determineRedditUrl\<close>. A page type with a dash has two parts at least, so
  \<open>pageSplit[1]\<close> is in range.
\<close>

definition determineRedditUrl :: "Scraper \<Rightarrow> string \<Rightarrow> string" where
  "determineRedditUrl s sub =
     (let pageType0 = PageType (scrapingOptions s);
          pageSplit = strings_Split CHR ''-'' pageType0;
          dashed = strings_Contains pageType0 ''-'';
          additional = (if dashed then ''&t='' @ pageSplit ! 1 else []);
          pageType = (if dashed then pageSplit ! 0 else pageType0);
          limit = fmt_int (ImageLimit (scrapingOptions s))
      in if sub = ''frontpage''
         then ''https://www.reddit.com/'' @ pageType @ ''/.json?limit='' @ limit
                @ ''&after='' @ fmt_int (after s) @ additional
         else ''https://www.reddit.com/r/'' @ sub @ ''/'' @ pageType @ ''.json?limit='' @ limit
                @ ''&after='' @ fmt_int (after s) @ additional)"

definition UnmarshalListing :: "world \<Rightarrow> string \<Rightarrow> Listings \<times> bool" where
  "UnmarshalListing w data = json_Unmarshal w data"

text \<open>
  \<open>gatherRedditFeed\<close>: the listing and whether an error is returned with it. A blank
  feed name returns an error; a request that could not be built is used all the same
  (a nil pointer); a network error is \<open>log.Panic\<close>; the deferred close of the body is
  \<open>log.Fatal\<close> when it fails.
\<close>

definition gatherRedditFeed :: "world \<Rightarrow> Scraper \<Rightarrow> string \<Rightarrow> panic + (Listings \<times> bool)" where
  "gatherRedditFeed w s sub =
     (if strings_TrimSpace sub = [] then Inr (\<lparr>Listings_Data = None\<rparr>, True)
      else
        let url = determineRedditUrl s sub
        in if \<not> new_request_ok w url then Inl NilPointerDereference
           else (case client_Do w url of
                   None \<Rightarrow> Inl LogPanic
                 | Some body \<Rightarrow>
                     if body_Close_ok w url then Inr (UnmarshalListing w body)
                     else Inl LogFatal))"

text \<open>The first loop of \<open>parseLinksFromListings\<close>: the filter on domain, hint and URL.\<close>

fun filter_children :: "Child list \<Rightarrow> Child list \<Rightarrow> panic + Child list" where
  "filter_children filteredList [] = Inr filteredList"
| "filter_children filteredList (v # vs) =
     (case Child_Data v of
        None \<Rightarrow> Inl NilPointerDereference
      | Some d \<Rightarrow>
          if (case Domain d of None \<Rightarrow> False | Some dm \<Rightarrow> strings_Contains dm ''imgur'')
             \<or> (case PostHint d of None \<Rightarrow> False | Some h \<Rightarrow> strings_Contains h ''image'')
          then (case URL d of
                  None \<Rightarrow> Inl NilPointerDereference
                | Some u \<Rightarrow>
                    if strings_Contains (last (strings_Split CHR ''/'' u)) ''.''
                    then filter_children (filteredList @ [v]) vs
                    else filter_children filteredList vs)
          else filter_children filteredList vs)"

text \<open>
  The second loop: the slice is allocated at its full length first, and an entry whose
  image id is blank leaves its slot as it was allocated.
\<close>

fun convert_children :: "nat \<Rightarrow> Child list \<Rightarrow> Image list \<Rightarrow> panic + Image list" where
  "convert_children k [] returnableImages = Inr returnableImages"
| "convert_children k (v # vs) returnableImages =
     (case redditChildToImage v of
        Inl e \<Rightarrow> Inl e
      | Inr img \<Rightarrow>
          if strings_TrimSpace (imageId img) = []
          then convert_children (Suc k) vs returnableImages
          else convert_children (Suc k) vs (returnableImages[k := img]))"

definition parseLinksFromListings :: "Listings \<Rightarrow> panic + Image list" where
  "parseLinksFromListings listings =
     (case Listings_Data listings of
        None \<Rightarrow> Inr []
      | Some d \<Rightarrow>
          if Children d = [] then Inr []
          else (case filter_children [] (Children d) of
                  Inl e \<Rightarrow> Inl e
                | Inr filteredList \<Rightarrow>
                    convert_children 0 filteredList
                      (replicate (length filteredList) zero_Image)))"

text \<open>
  The parts of \<open>downloadMetadata\<close>, in the order of the source. The directory
  \<open>metadata_dir\<close> is created when it does not exist; the errors of that are dropped by
  the source, and the file system is the world's.
\<close>

definition ensure_ids ::
  "string \<Rightarrow> (string \<rightharpoonup> (string \<rightharpoonup> bool)) \<Rightarrow> (string \<rightharpoonup> (string \<rightharpoonup> bool))" where
  "ensure_ids sub ids = (case ids sub of None \<Rightarrow> ids(sub \<mapsto> Map.empty) | Some m \<Rightarrow> ids)"

definition metadata_links :: "world \<Rightarrow> Scraper \<Rightarrow> string \<Rightarrow> panic + Image list" where
  "metadata_links w s sub =
     (case gatherRedditFeed w s sub of
        Inl e \<Rightarrow> Inl e
      | Inr (listings, err) \<Rightarrow> parseLinksFromListings listings)"

definition metadata_dir :: "Scraper \<Rightarrow> string \<Rightarrow> string" where
  "metadata_dir s sub =
     (if RootFolderOnly (scrapingOptions s) then OutputDirectory (scrapingOptions s)
      else path_Join [OutputDirectory (scrapingOptions s), sub])"

text \<open>One round of the sending loop up to the send: the feed name, then the id set.\<close>

definition mark_image ::
  "string \<Rightarrow> Image \<Rightarrow> (string \<rightharpoonup> (string \<rightharpoonup> bool))
     \<Rightarrow> panic + (Image \<times> (string \<rightharpoonup> (string \<rightharpoonup> bool)))" where
  "mark_image sub img ids =
     (let img1 = img\<lparr>subreddit := sub\<rparr>
      in case ids sub of
           None \<Rightarrow> Inl AssignmentToNilMap
         | Some m \<Rightarrow> Inr (img1, ids(sub \<mapsto> m(imageId img1 \<mapsto> True))))"

fun send_loop ::
  "string \<Rightarrow> Image list \<Rightarrow> (string \<rightharpoonup> (string \<rightharpoonup> bool)) \<Rightarrow> Image list
     \<Rightarrow> panic + ((string \<rightharpoonup> (string \<rightharpoonup> bool)) \<times> Image list)" where
  "send_loop sub [] ids sent = Inr (ids, sent)"
| "send_loop sub (img # links) ids sent =
     (case mark_image sub img ids of
        Inl e \<Rightarrow> Inl e
      | Inr (img1, ids1) \<Rightarrow> send_loop sub links ids1 (sent @ [img1]))"

text \<open>
  \<open>downloadMetadata\<close> for one feed run on its own: the id sets, the maximum of the
  progress bar (\<open>ChangeMax(GetMax() + len(links))\<close>) and the images sent to the queue,
  in order.
\<close>

definition downloadMetadata ::
  "world \<Rightarrow> Scraper \<Rightarrow> string \<Rightarrow> (string \<rightharpoonup> (string \<rightharpoonup> bool)) \<Rightarrow> int
     \<Rightarrow> panic + ((string \<rightharpoonup> (string \<rightharpoonup> bool)) \<times> int \<times> Image list)" where
  "downloadMetadata w s sub ids bar_max =
     (case metadata_links w s sub of
        Inl e \<Rightarrow> Inl e
      | Inr links \<Rightarrow>
          (case send_loop sub links (ensure_ids sub ids) [] of
             Inl e \<Rightarrow> Inl e
           | Inr (ids1, sent) \<Rightarrow> Inr (ids1, bar_max + int (length links), sent)))"

section \<open>scraper.go: the download worker\<close>

record download =
  msgs :: "updateState list"
  calls :: "io_call list"
  fatal :: bool

text \<open>The directory \<open>downloadImages\<close> passes to \<open>downloadImage\<close>.\<close>

definition worker_outDir :: "Scraper \<Rightarrow> Image \<Rightarrow> string" where
  "worker_outDir s img = path_Join [OutputDirectory (scrapingOptions s), subreddit img]"

definition rewrite_link :: "Image \<Rightarrow> Image" where
  "rewrite_link img =
     (if strings_HasSuffix (link img) ''gifv''
      then img\<lparr>link := take (length (link img) - 4) (link img) @ ''mp4''\<rparr>
      else img)"

definition image_path :: "Scraper \<Rightarrow> string \<Rightarrow> Image \<Rightarrow> string" where
  "image_path s outDir img =
     (let outDir1 = (if RootFolderOnly (scrapingOptions s)
                     then strings_Replace1 outDir (subreddit img) []
                     else outDir);
          imageIdSplit = strings_Split CHR ''/'' (link (rewrite_link img))
      in path_Join [outDir1, last imageIdSplit])"

text \<open>
  \<open>downloadImage\<close>: the messages sent, the outside calls made, and whether a deferred
  \<open>Close\<close> ended the process with \<open>log.Fatal\<close>. The deferred closes run last, the
  response body before the file.
\<close>

definition downloadImage :: "world \<Rightarrow> Scraper \<Rightarrow> string \<Rightarrow> Image \<Rightarrow> download" where
  "downloadImage w s outDir img =
     (let img1 = rewrite_link img;
          imagePath = image_path s outDir img
      in if \<not> stat_IsNotExist w imagePath
         then \<lparr>msgs = [(img, DOWNLOADING), (img1, SKIPPED)],
               calls = [Stat imagePath], fatal = False\<rparr>
         else if \<not> os_Create_ok w imagePath
         then \<lparr>msgs = [(img, DOWNLOADING), (img1, FAILED)],
               calls = [Stat imagePath, Create imagePath], fatal = False\<rparr>
         else if \<not> http_Get_ok w (link img1)
         then \<lparr>msgs = [(img, DOWNLOADING), (img1, FAILED)],
               calls = [Stat imagePath, Create imagePath, HttpGet (link img1),
                        CloseFile imagePath],
               fatal = (\<not> file_Close_ok w imagePath)\<rparr>
         else
           \<lparr>msgs = [(img, DOWNLOADING),
                    (img1, if io_Copy_ok w (link img1) then SUCCESS else FAILED)],
            calls = [Stat imagePath, Create imagePath, HttpGet (link img1),
                     Copy imagePath, CloseBody (link img1)]
                    @ (if body_Close_ok w (link img1) then [CloseFile imagePath] else []),
            fatal = (\<not> body_Close_ok w (link img1) \<or> \<not> file_Close_ok w imagePath)\<rparr>)"

section \<open>scraper.go: the progress aggregator\<close>

text \<open>
  The counters of \<open>Start\<close> and the body of its loop over the message stream. The text
  and the position of the progress bar (\<open>Describe\<close>, \<open>Add\<close>) are display only and are
  left out; its maximum, which the summary prints, is part of the pipeline state below.
\<close>

record totals =
  downloaded :: int
  skipped :: int
  failed :: int

definition Start_msg :: "updateState \<Rightarrow> totals \<Rightarrow> totals" where
  "Start_msg msg t =
     (case snd msg of
        DOWNLOADING \<Rightarrow> t
      | SUCCESS \<Rightarrow> t\<lparr>downloaded := downloaded t + 1\<rparr>
      | SKIPPED \<Rightarrow> t\<lparr>skipped := skipped t + 1\<rparr>
      | FAILED \<Rightarrow> t\<lparr>failed := failed t + 1\<rparr>)"

fun Start_loop :: "updateState list \<Rightarrow> totals \<Rightarrow> totals" where
  "Start_loop [] t = t"
| "Start_loop (msg # rest) t = Start_loop rest (Start_msg msg t)"

section \<open>scraper.go: the pipeline of goroutines\<close>

text \<open>
  \<open>Start\<close> runs \<open>downloadRedditMetadata\<close> and \<open>downloadImages\<close> as goroutines and then
  receives from the message stream. \<open>downloadRedditMetadata\<close> starts one
  \<open>downloadMetadata\<close> goroutine per feed, \<open>downloadImages\<close> one goroutine per image
  received. The program is modelled as a transition system: the state holds the place
  each goroutine has reached with its local variables, the two wait groups, the
  semaphore, the two channels and the progress bar; an action is one goroutine doing
  its next statement. Both channels are unbuffered, so a send is one action together
  with the matching receive. A blocked statement is an action that is not enabled.
\<close>

text \<open>
  A \<open>downloadMetadata\<close> goroutine: before the mutex block; before
  \<open>gatherRedditFeed\<close>; before \<open>GetMax\<close>, with the links parsed; before \<open>ChangeMax\<close>,
  with its argument computed; at the head of the sending loop, with the images left;
  in the send, the id recorded; panicking, the deferred \<open>group.Done()\<close> still to run;
  panicked, \<open>Done\<close> called, the runtime about to end the process; returned.
\<close>

datatype fetcher =
    FStart
  | FGather
  | FGetMax "Image list"
  | FChangeMax int "Image list"
  | FLoop "Image list"
  | FSend Image "Image list"
  | FPanicking panic
  | FDying panic
  | FDone

text \<open>
  \<open>downloadRedditMetadata\<close>: at the head of the loop over the feeds, at index \<open>k\<close>;
  after \<open>Add(1)\<close>, before the \<open>go\<close> statement; in \<open>Wait\<close>; before \<open>close\<close>; returned.
\<close>

datatype coordinator = CLoop nat | CAdded nat | CWait | CClose | CEnd

text \<open>
  \<open>downloadImages\<close>: receiving from the queue; holding an image, before \<open>Add(1)\<close>;
  before \<open>Acquire\<close>; before the \<open>go\<close> statement; in \<open>Wait\<close>; before \<open>close\<close>; returned.
\<close>

datatype dispatcher = DRecv | DGot Image | DAdded Image | DAcquired Image | DWait | DClose | DEnd

text \<open>
  A download goroutine: before the call of \<open>downloadImage\<close>; inside it, with the
  messages still to send and whether a deferred close will end the process; after it
  returned, before \<open>Release\<close>; before \<open>Done\<close>; finished.
\<close>

datatype worker = WSpawned | WEmit "updateState list" bool | WReturned | WReleased | WExited

record pipeline =
  fetchers :: "(string \<times> fetcher) list"
  coordinator_at :: coordinator
  downloadWaitGroup :: int
  queue_closed :: bool
  image_ids :: "string \<rightharpoonup> (string \<rightharpoonup> bool)"
  dispatcher_at :: dispatcher
  waitGroup :: int
  sem_cur :: int
  workers :: "(Image \<times> worker) list"
  messages_closed :: bool
  bar_max :: int
  counts :: totals
  summary :: "(int \<times> int \<times> int \<times> int) option"
  crashed :: "panic option"

text \<open>
  The state when \<open>Start\<close> has started the two goroutines: the progress bar was made
  with a maximum of 1.
\<close>

definition init :: "Scraper \<Rightarrow> pipeline" where
  "init s =
     \<lparr>fetchers = [], coordinator_at = CLoop 0, downloadWaitGroup = 0, queue_closed = False,
      image_ids = uniqueImageIds s, dispatcher_at = DRecv, waitGroup = 0, sem_cur = 0,
      workers = [], messages_closed = False, bar_max = 1,
      counts = \<lparr>downloaded = 0, skipped = 0, failed = 0\<rparr>, summary = None,
      crashed = None\<rparr>"

text \<open>
  The actions, by goroutine. The answer of the outside world to a fetch or to a
  download comes with the action: any world may answer at any time.
\<close>

datatype coordinator_action = CNext | CGo | CWaitReturn | CCloseQueue

datatype fetcher_action =
  FLock | FFetch world | FReadMax | FWriteMax | FMark | FSendTo | FReturn | FUnwind | FDie

datatype dispatcher_action = DAdd | DAcquire | DGo | DSeeClosed | DWaitReturn | DCloseMessages

datatype worker_action = WEnter world | WSend | WReturn | WRelease | WDone

datatype action =
    ByCoordinator coordinator_action
  | ByFetcher nat fetcher_action
  | ByDispatcher dispatcher_action
  | ByWorker nat worker_action
  | ByStart

text \<open>\<open>WaitGroup.Done\<close>: a counter below zero is a panic.\<close>

definition wg_Done :: "int \<Rightarrow> panic + int" where
  "wg_Done c = (if c - 1 < 0 then Inl NegativeWaitGroupCounter else Inr (c - 1))"

definition set_fetcher :: "nat \<Rightarrow> fetcher \<Rightarrow> pipeline \<Rightarrow> pipeline" where
  "set_fetcher i f p = p\<lparr>fetchers := (fetchers p)[i := (fst (fetchers p ! i), f)]\<rparr>"

definition set_worker :: "nat \<Rightarrow> worker \<Rightarrow> pipeline \<Rightarrow> pipeline" where
  "set_worker i v p = p\<lparr>workers := (workers p)[i := (fst (workers p ! i), v)]\<rparr>"

text \<open>The next statement of \<open>downloadRedditMetadata\<close>.\<close>

fun coordinator_step :: "Scraper \<Rightarrow> coordinator_action \<Rightarrow> pipeline \<Rightarrow> pipeline option" where
  "coordinator_step s CNext p =
     (case coordinator_at p of
        CLoop k \<Rightarrow>
          if k < length (Subreddits (scrapingOptions s))
          then Some (p\<lparr>downloadWaitGroup := downloadWaitGroup p + 1, coordinator_at := CAdded k\<rparr>)
          else Some (p\<lparr>coordinator_at := CWait\<rparr>)
      | _ \<Rightarrow> None)"
| "coordinator_step s CGo p =
     (case coordinator_at p of
        CAdded k \<Rightarrow>
          if k < length (Subreddits (scrapingOptions s))
          then Some (p\<lparr>fetchers := fetchers p @ [(Subreddits (scrapingOptions s) ! k, FStart)],
                       coordinator_at := CLoop (Suc k)\<rparr>)
          else None
      | _ \<Rightarrow> None)"
| "coordinator_step s CWaitReturn p =
     (if coordinator_at p = CWait \<and> downloadWaitGroup p = 0
      then Some (p\<lparr>coordinator_at := CClose\<rparr>) else None)"
| "coordinator_step s CCloseQueue p =
     (if coordinator_at p = CClose
      then Some (p\<lparr>queue_closed := True, coordinator_at := CEnd\<rparr>) else None)"

text \<open>
  The next statement of the \<open>downloadMetadata\<close> goroutine of index \<open>i\<close>, for the feed
  \<open>sub\<close>, which is at \<open>f\<close>. \<open>log.Fatal\<close> ends the process at once; a panic runs the
  deferred \<open>Done\<close> first.
\<close>

fun fetcher_step ::
  "Scraper \<Rightarrow> fetcher_action \<Rightarrow> nat \<Rightarrow> string \<Rightarrow> fetcher \<Rightarrow> pipeline \<Rightarrow> pipeline option" where
  "fetcher_step s FLock i sub f p =
     (case f of
        FStart \<Rightarrow> Some (set_fetcher i FGather (p\<lparr>image_ids := ensure_ids sub (image_ids p)\<rparr>))
      | _ \<Rightarrow> None)"
| "fetcher_step s (FFetch w) i sub f p =
     (case f of
        FGather \<Rightarrow>
          (case metadata_links w s sub of
             Inl e \<Rightarrow>
               if e = LogFatal then Some (p\<lparr>crashed := Some LogFatal\<rparr>)
               else Some (set_fetcher i (FPanicking e) p)
           | Inr links \<Rightarrow> Some (set_fetcher i (FGetMax links) p))
      | _ \<Rightarrow> None)"
| "fetcher_step s FReadMax i sub f p =
     (case f of
        FGetMax links \<Rightarrow>
          Some (set_fetcher i (FChangeMax (bar_max p + int (length links)) links) p)
      | _ \<Rightarrow> None)"
| "fetcher_step s FWriteMax i sub f p =
     (case f of
        FChangeMax m links \<Rightarrow> Some (set_fetcher i (FLoop links) (p\<lparr>bar_max := m\<rparr>))
      | _ \<Rightarrow> None)"
| "fetcher_step s FMark i sub f p =
     (case f of
        FLoop (img # links) \<Rightarrow>
          (case mark_image sub img (image_ids p) of
             Inl e \<Rightarrow> Some (set_fetcher i (FPanicking e) p)
           | Inr (img1, ids1) \<Rightarrow>
               Some (set_fetcher i (FSend img1 links) (p\<lparr>image_ids := ids1\<rparr>)))
      | _ \<Rightarrow> None)"
| "fetcher_step s FSendTo i sub f p =
     (case f of
        FSend img links \<Rightarrow>
          if queue_closed p then Some (p\<lparr>crashed := Some SendOnClosedChannel\<rparr>)
          else if dispatcher_at p = DRecv
          then Some (set_fetcher i (FLoop links) (p\<lparr>dispatcher_at := DGot img\<rparr>))
          else None
      | _ \<Rightarrow> None)"
| "fetcher_step s FReturn i sub f p =
     (case f of
        FLoop [] \<Rightarrow>
          (case wg_Done (downloadWaitGroup p) of
             Inl e \<Rightarrow> Some (p\<lparr>crashed := Some e\<rparr>)
           | Inr c \<Rightarrow> Some (set_fetcher i FDone (p\<lparr>downloadWaitGroup := c\<rparr>)))
      | _ \<Rightarrow> None)"
| "fetcher_step s FUnwind i sub f p =
     (case f of
        FPanicking e \<Rightarrow>
          (case wg_Done (downloadWaitGroup p) of
             Inl e' \<Rightarrow> Some (p\<lparr>crashed := Some e'\<rparr>)
           | Inr c \<Rightarrow> Some (set_fetcher i (FDying e) (p\<lparr>downloadWaitGroup := c\<rparr>)))
      | _ \<Rightarrow> None)"
| "fetcher_step s FDie i sub f p =
     (case f of
        FDying e \<Rightarrow> Some (p\<lparr>crashed := Some e\<rparr>)
      | _ \<Rightarrow> None)"

text \<open>
  The next statement of \<open>downloadImages\<close>. \<open>Acquire\<close> of one unit returns when the size
  of the semaphore less the units held is one at least, and blocks otherwise; its
  context is never done, so it returns no error.
\<close>

fun dispatcher_step :: "Scraper \<Rightarrow> dispatcher_action \<Rightarrow> pipeline \<Rightarrow> pipeline option" where
  "dispatcher_step s DAdd p =
     (case dispatcher_at p of
        DGot img \<Rightarrow> Some (p\<lparr>waitGroup := waitGroup p + 1, dispatcher_at := DAdded img\<rparr>)
      | _ \<Rightarrow> None)"
| "dispatcher_step s DAcquire p =
     (case dispatcher_at p of
        DAdded img \<Rightarrow>
          if MaxConcurrentDownloads (scrapingOptions s) - sem_cur p \<ge> 1
          then Some (p\<lparr>sem_cur := sem_cur p + 1, dispatcher_at := DAcquired img\<rparr>)
          else None
      | _ \<Rightarrow> None)"
| "dispatcher_step s DGo p =
     (case dispatcher_at p of
        DAcquired img \<Rightarrow>
          Some (p\<lparr>workers := workers p @ [(img, WSpawned)], dispatcher_at := DRecv\<rparr>)
      | _ \<Rightarrow> None)"
| "dispatcher_step s DSeeClosed p =
     (if dispatcher_at p = DRecv \<and> queue_closed p
      then Some (p\<lparr>dispatcher_at := DWait\<rparr>) else None)"
| "dispatcher_step s DWaitReturn p =
     (if dispatcher_at p = DWait \<and> waitGroup p = 0
      then Some (p\<lparr>dispatcher_at := DClose\<rparr>) else None)"
| "dispatcher_step s DCloseMessages p =
     (if dispatcher_at p = DClose
      then Some (p\<lparr>messages_closed := True, dispatcher_at := DEnd\<rparr>) else None)"

text \<open>
  The next statement of the download goroutine of index \<open>i\<close>, for the image \<open>img\<close>,
  which is at \<open>v\<close>. A message sent is received by the loop of \<open>Start\<close> in the same
  action.
\<close>

fun worker_step ::
  "Scraper \<Rightarrow> worker_action \<Rightarrow> nat \<Rightarrow> Image \<Rightarrow> worker \<Rightarrow> pipeline \<Rightarrow> pipeline option" where
  "worker_step s (WEnter w) i img v p =
     (case v of
        WSpawned \<Rightarrow>
          (let d = downloadImage w s (worker_outDir s img) img
           in Some (set_worker i (WEmit (msgs d) (fatal d)) p))
      | _ \<Rightarrow> None)"
| "worker_step s WSend i img v p =
     (case v of
        WEmit (m # ms) f \<Rightarrow>
          if messages_closed p then Some (p\<lparr>crashed := Some SendOnClosedChannel\<rparr>)
          else Some (set_worker i (WEmit ms f) (p\<lparr>counts := Start_msg m (counts p)\<rparr>))
      | _ \<Rightarrow> None)"
| "worker_step s WReturn i img v p =
     (case v of
        WEmit [] f \<Rightarrow>
          if f then Some (p\<lparr>crashed := Some LogFatal\<rparr>)
          else Some (set_worker i WReturned p)
      | _ \<Rightarrow> None)"
| "worker_step s WRelease i img v p =
     (case v of
        WReturned \<Rightarrow>
          if sem_cur p - 1 < 0 then Some (p\<lparr>crashed := Some SemaphoreReleasedMoreThanHeld\<rparr>)
          else Some (set_worker i WReleased (p\<lparr>sem_cur := sem_cur p - 1\<rparr>))
      | _ \<Rightarrow> None)"
| "worker_step s WDone i img v p =
     (case v of
        WReleased \<Rightarrow>
          (case wg_Done (waitGroup p) of
             Inl e \<Rightarrow> Some (p\<lparr>crashed := Some e\<rparr>)
           | Inr c \<Rightarrow> Some (set_worker i WExited (p\<lparr>waitGroup := c\<rparr>)))
      | _ \<Rightarrow> None)"

text \<open>
  \<open>Start\<close> leaving its loop when the message stream is closed, with the summary it
  prints: the maximum of the progress bar and the three counters.
\<close>

definition Start_finish :: "pipeline \<Rightarrow> pipeline option" where
  "Start_finish p =
     (if messages_closed p \<and> summary p = None
      then Some (p\<lparr>summary := Some (bar_max p, downloaded (counts p), skipped (counts p),
                                      failed (counts p))\<rparr>)
      else None)"

text \<open>One action of the program. Nothing runs once the process has ended.\<close>

fun act :: "Scraper \<Rightarrow> action \<Rightarrow> pipeline \<Rightarrow> pipeline option" where
  "act s (ByCoordinator a) p = coordinator_step s a p"
| "act s (ByFetcher i a) p =
     (if i < length (fetchers p)
      then fetcher_step s a i (fst (fetchers p ! i)) (snd (fetchers p ! i)) p
      else None)"
| "act s (ByDispatcher a) p = dispatcher_step s a p"
| "act s (ByWorker i a) p =
     (if i < length (workers p)
      then worker_step s a i (fst (workers p ! i)) (snd (workers p ! i)) p
      else None)"
| "act s ByStart p = Start_finish p"

definition step :: "Scraper \<Rightarrow> action \<Rightarrow> pipeline \<Rightarrow> pipeline option" where
  "step s a p = (if crashed p \<noteq> None then None else act s a p)"

text \<open>A schedule: the actions taken, in order.\<close>

fun exec :: "Scraper \<Rightarrow> action list \<Rightarrow> pipeline \<Rightarrow> pipeline option" where
  "exec s [] p = Some p"
| "exec s (a # as) p = (case step s a p of None \<Rightarrow> None | Some p' \<Rightarrow> exec s as p')"

text \<open>
  What the claims speak of: a fetcher that has not called \<open>Done\<close> yet, a download
  goroutine that has not called \<open>Done\<close> yet, one that holds a unit of the semaphore,
  and one that is inside \<open>downloadImage\<close>.
\<close>

fun fetching :: "fetcher \<Rightarrow> bool" where
  "fetching FDone = False"
| "fetching (FDying e) = False"
| "fetching f = True"

fun working :: "worker \<Rightarrow> bool" where
  "working WExited = False"
| "working v = True"

fun holding :: "worker \<Rightarrow> bool" where
  "holding WSpawned = True"
| "holding (WEmit ms f) = True"
| "holding WReturned = True"
| "holding v = False"

fun downloading :: "worker \<Rightarrow> bool" where
  "downloading WSpawned = True"
| "downloading (WEmit ms f) = True"
| "downloading v = False"

definition count_where :: "('a \<Rightarrow> bool) \<Rightarrow> ('b \<times> 'a) list \<Rightarrow> int" where
  "count_where P xs = int (length (filter (\<lambda>x. P (snd x)) xs))"

text \<open>
  What holds in every state the program reaches. For \<open>downloadRedditMetadata\<close>: the
  counter of its wait group is the number of fetchers that have not called \<open>Done\<close>
  (one more between \<open>Add\<close> and \<open>go\<close>), every feed has its fetcher once the loop is
  left, and the queue is closed only at the end. For \<open>downloadImages\<close> alike, with the
  units of the semaphore held. The process never ends by a send on a closed channel, a
  negative wait group counter or a release of a unit not held.
\<close>

definition coordinator_ok :: "Scraper \<Rightarrow> pipeline \<Rightarrow> bool" where
  "coordinator_ok s p =
     ((case coordinator_at p of
         CLoop k \<Rightarrow>
           length (fetchers p) = k \<and> k \<le> length (Subreddits (scrapingOptions s))
           \<and> downloadWaitGroup p = count_where fetching (fetchers p)
       | CAdded k \<Rightarrow>
           length (fetchers p) = k \<and> k < length (Subreddits (scrapingOptions s))
           \<and> downloadWaitGroup p = count_where fetching (fetchers p) + 1
       | CWait \<Rightarrow>
           length (fetchers p) = length (Subreddits (scrapingOptions s))
           \<and> downloadWaitGroup p = count_where fetching (fetchers p)
       | CClose \<Rightarrow>
           length (fetchers p) = length (Subreddits (scrapingOptions s))
           \<and> downloadWaitGroup p = 0 \<and> count_where fetching (fetchers p) = 0
       | CEnd \<Rightarrow>
           length (fetchers p) = length (Subreddits (scrapingOptions s))
           \<and> downloadWaitGroup p = 0 \<and> count_where fetching (fetchers p) = 0)
      \<and> queue_closed p = (coordinator_at p = CEnd))"

definition dispatcher_ok :: "Scraper \<Rightarrow> pipeline \<Rightarrow> bool" where
  "dispatcher_ok s p =
     ((case dispatcher_at p of
         DRecv \<Rightarrow> waitGroup p = count_where working (workers p)
           \<and> sem_cur p = count_where holding (workers p)
       | DGot img \<Rightarrow> waitGroup p = count_where working (workers p)
           \<and> sem_cur p = count_where holding (workers p)
       | DAdded img \<Rightarrow> waitGroup p = count_where working (workers p) + 1
           \<and> sem_cur p = count_where holding (workers p)
       | DAcquired img \<Rightarrow> waitGroup p = count_where working (workers p) + 1
           \<and> sem_cur p = count_where holding (workers p) + 1
       | DWait \<Rightarrow> waitGroup p = count_where working (workers p)
           \<and> sem_cur p = count_where holding (workers p) \<and> queue_closed p
       | DClose \<Rightarrow> waitGroup p = 0 \<and> count_where working (workers p) = 0
           \<and> sem_cur p = count_where holding (workers p) \<and> queue_closed p
       | DEnd \<Rightarrow> waitGroup p = 0 \<and> count_where working (workers p) = 0
           \<and> sem_cur p = count_where holding (workers p) \<and> queue_closed p)
      \<and> (sem_cur p = 0 \<or> sem_cur p \<le> MaxConcurrentDownloads (scrapingOptions s))
      \<and> messages_closed p = (dispatcher_at p = DEnd))"

definition no_misuse :: "pipeline \<Rightarrow> bool" where
  "no_misuse p =
     (crashed p \<noteq> Some SendOnClosedChannel \<and> crashed p \<noteq> Some NegativeWaitGroupCounter
      \<and> crashed p \<noteq> Some SemaphoreReleasedMoreThanHeld)"

fun panic_of :: "fetcher \<Rightarrow> panic option" where
  "panic_of (FPanicking e) = Some e"
| "panic_of (FDying e) = Some e"
| "panic_of f = None"

definition misuse :: "panic \<Rightarrow> bool" where
  "misuse e = (e = SendOnClosedChannel \<or> e = NegativeWaitGroupCounter
               \<or> e = SemaphoreReleasedMoreThanHeld)"

definition fetchers_ok :: "pipeline \<Rightarrow> bool" where
  "fetchers_ok p = (\<forall>f \<in> set (fetchers p). \<forall>e. panic_of (snd f) = Some e \<longrightarrow> \<not> misuse e)"

definition pipeline_ok :: "Scraper \<Rightarrow> pipeline \<Rightarrow> bool" where
  "pipeline_ok s p = (coordinator_ok s p \<and> dispatcher_ok s p \<and> no_misuse p \<and> fetchers_ok p)"

text \<open>
  What a statement of the fetcher of index \<open>i\<close> may change is its own place, the
  counter of the wait group and the maximum of the progress bar; \<open>rest_unchanged\<close> says
  that everything else is as before.
\<close>

definition rest_unchanged :: "nat \<Rightarrow> pipeline \<Rightarrow> pipeline \<Rightarrow> bool" where
  "rest_unchanged i p p' =
     (length (fetchers p') = length (fetchers p)
      \<and> (\<forall>j < length (fetchers p). j \<noteq> i \<longrightarrow> fetchers p' ! j = fetchers p ! j)
      \<and> fst (fetchers p' ! i) = fst (fetchers p ! i)
      \<and> coordinator_at p' = coordinator_at p \<and> queue_closed p' = queue_closed p
      \<and> image_ids p' = image_ids p \<and> dispatcher_at p' = dispatcher_at p
      \<and> waitGroup p' = waitGroup p \<and> sem_cur p' = sem_cur p \<and> workers p' = workers p
      \<and> messages_closed p' = messages_closed p \<and> counts p' = counts p
      \<and> summary p' = summary p \<and> crashed p' = crashed p)"

section \<open>Concrete inputs\<close>

definition example_scraper :: "string \<Rightarrow> bool \<Rightarrow> Scraper" where
  "example_scraper dir root_only =
     \<lparr>after = 0,
      scrapingOptions = \<lparr>OutputDirectory = dir, ImageLimit = 50, FrontPage = False,
        PageType = ''hot'', Subreddits = [''pics''], MaxConcurrentDownloads = 5,
        RootFolderOnly = root_only\<rparr>,
      supportedPageTypes = (\<lambda>t. t \<in> set supported_page_types),
      uniqueImageIds = Map.empty\<rparr>"

definition example_entry :: "string \<Rightarrow> Child" where
  "example_entry u =
     \<lparr>Child_Data = Some \<lparr>Title = Some ''a title'', Domain = Some ''i.imgur.com'',
        ID = Some ''t3'', AuthorName = Some ''someone'', Permalink = Some ''/r/pics/1'',
        PostHint = Some ''image'', URL = Some u, Subreddit = Some ''pics''\<rparr>\<rparr>"

definition example_listing :: "string list \<Rightarrow> Listings" where
  "example_listing urls =
     \<lparr>Listings_Data = Some \<lparr>Dist = None, Children = map example_entry urls\<rparr>\<rparr>"

definition example_world :: "Listings \<Rightarrow> world" where
  "example_world l =
     \<lparr>new_request_ok = (\<lambda>u. True), client_Do = (\<lambda>u. Some ''{}''),
      body_Close_ok = (\<lambda>u. True), json_Unmarshal = (\<lambda>b. (l, False)),
      stat_IsNotExist = (\<lambda>p. True), os_Create_ok = (\<lambda>p. True),
      http_Get_ok = (\<lambda>u. True), io_Copy_ok = (\<lambda>u. True), file_Close_ok = (\<lambda>p. True)\<rparr>"

text \<open>A world in which every request fails in the network.\<close>

definition network_down :: world where
  "network_down = (example_world \<lparr>Listings_Data = None\<rparr>)\<lparr>client_Do := (\<lambda>u. None)\<rparr>"

text \<open>The scraper of two feeds, \<open>pics\<close> and \<open>cats\<close>.\<close>

definition two_feeds :: Scraper where
  "two_feeds =
     (example_scraper ''out'' False)
       \<lparr>scrapingOptions :=
          (scrapingOptions (example_scraper ''out'' False))\<lparr>Subreddits := [''pics'', ''cats'']\<rparr>\<rparr>"

text \<open>
  A complete run of one feed with one image: the coordinator starts the fetcher, the
  fetcher sends the image, the worker downloads it, and every stage shuts down.
\<close>

definition one_image :: world where
  "one_image = example_world (example_listing [''https://i.imgur.com/a.jpg''])"

definition run_to_download :: "action list" where
  "run_to_download =
     [ByCoordinator CNext, ByCoordinator CGo, ByFetcher 0 FLock, ByFetcher 0 (FFetch one_image),
      ByFetcher 0 FReadMax, ByFetcher 0 FWriteMax, ByFetcher 0 FMark, ByFetcher 0 FSendTo,
      ByDispatcher DAdd, ByDispatcher DAcquire, ByDispatcher DGo, ByWorker 0 (WEnter one_image)]"

definition run_to_return :: "action list" where
  "run_to_return = run_to_download @ [ByWorker 0 WSend, ByWorker 0 WSend, ByWorker 0 WReturn]"

definition complete_run :: "action list" where
  "complete_run =
     run_to_return @
     [ByWorker 0 WRelease, ByWorker 0 WDone, ByFetcher 0 FReturn, ByCoordinator CNext,
      ByCoordinator CWaitReturn, ByCoordinator CCloseQueue, ByDispatcher DSeeClosed,
      ByDispatcher DWaitReturn, ByDispatcher DCloseMessages, ByStart]"

text \<open>
  Two feeds, the first with two images and the second with none, where both fetchers
  read the maximum of the progress bar before either writes it; then both images are
  downloaded.
\<close>

definition two_images :: world where
  "two_images =
     example_world (example_listing [''https://i.imgur.com/a.jpg'', ''https://i.imgur.com/b.jpg''])"

definition no_images :: world where
  "no_images = example_world \<lparr>Listings_Data = None\<rparr>"

definition racing_start :: "action list" where
  "racing_start =
     [ByCoordinator CNext, ByCoordinator CGo, ByCoordinator CNext, ByCoordinator CGo,
      ByFetcher 0 FLock, ByFetcher 1 FLock,
      ByFetcher 0 (FFetch two_images), ByFetcher 1 (FFetch no_images),
      ByFetcher 1 FReadMax, ByFetcher 0 FReadMax, ByFetcher 0 FWriteMax]"

definition racing_run :: "action list" where
  "racing_run =
     racing_start @
     [ByFetcher 1 FWriteMax,
      ByFetcher 0 FMark, ByFetcher 0 FSendTo,
      ByDispatcher DAdd, ByDispatcher DAcquire, ByDispatcher DGo,
      ByWorker 0 (WEnter two_images), ByWorker 0 WSend, ByWorker 0 WSend,
      ByFetcher 0 FMark, ByFetcher 0 FSendTo,
      ByDispatcher DAdd, ByDispatcher DAcquire, ByDispatcher DGo,
      ByWorker 1 (WEnter two_images), ByWorker 1 WSend, ByWorker 1 WSend]"

text \<open>
  Both fetchers are started and the first has made its id set; then the first feed
  fails in the network while the second has not run a statement.
\<close>

definition start_first :: "action list" where
  "start_first =
     [ByCoordinator CNext, ByCoordinator CGo, ByCoordinator CNext, ByCoordinator CGo,
      ByFetcher 0 FLock]"

definition failing_run :: "action list" where
  "failing_run =
     start_first @
     [ByFetcher 0 (FFetch network_down), ByFetcher 0 FUnwind, ByFetcher 0 FDie]"

text \<open>
  A world whose payload the decoder rejects: the listing is empty and an error comes
  with it. And the scraper of two feeds of which the first has a blank name.
\<close>

definition malformed_payload :: world where
  "malformed_payload =
     (example_world \<lparr>Listings_Data = None\<rparr>)
       \<lparr>json_Unmarshal := (\<lambda>b. (\<lparr>Listings_Data = None\<rparr>, True))\<rparr>"

definition blank_feed :: Scraper where
  "blank_feed =
     (example_scraper ''out'' False)
       \<lparr>scrapingOptions :=
          (scrapingOptions (example_scraper ''out'' False))\<lparr>Subreddits := ['' '', ''cats'']\<rparr>\<rparr>"

section \<open>Facts about the string and path primitives\<close>

lemma strings_Split_nonempty: "strings_Split c s \<noteq> []"
  by (induction s) (auto split: list.splits)

lemma strings_Split_sep:
  "strings_Split c (a @ c # b) = strings_Split c a @ strings_Split c b"
proof (induction a)
  case Nil
  then show ?case by simp
next
  case (Cons x a)
  then show ?case
    using strings_Split_nonempty [of c a]
    by (cases "strings_Split c a") auto
qed

lemma strings_Split_free: "c \<notin> set s \<Longrightarrow> strings_Split c s = [s]"
  by (induction s) auto

lemma strings_Split_length:
  "length (strings_Split c s) = Suc (length (filter (\<lambda>y. y = c) s))"
  by (induction s) (auto split: list.splits)

lemma takeWhile_all_append:
  "\<forall>x\<in>set xs. P x \<Longrightarrow> takeWhile P (xs @ ys) = xs @ takeWhile P ys"
  by (induction xs) auto

lemma strings_Split_last:
  "last (strings_Split c s) = rev (takeWhile (\<lambda>y. y \<noteq> c) (rev s))"
proof (induction s)
  case Nil
  then show ?case by simp
next
  case (Cons x s)
  show ?case
  proof (cases "c \<in> set s")
    case True
    then have tw: "takeWhile (\<lambda>y. y \<noteq> c) (rev s @ [x]) = takeWhile (\<lambda>y. y \<noteq> c) (rev s)"
      by (intro takeWhile_append1 [of c]) auto
    from True have "filter (\<lambda>y. y = c) s \<noteq> []"
      by (auto simp: filter_empty_conv)
    then have "2 \<le> length (strings_Split c s)"
      by (cases "filter (\<lambda>y. y = c) s") (auto simp: strings_Split_length)
    then obtain w v ws where "strings_Split c s = w # v # ws"
      by (cases "strings_Split c s"; cases "tl (strings_Split c s)") auto
    then show ?thesis
      using Cons tw by auto
  next
    case False
    then have "\<forall>y\<in>set (rev s). y \<noteq> c" by auto
    then have "takeWhile (\<lambda>y. y \<noteq> c) (rev s @ [x]) = rev s @ takeWhile (\<lambda>y. y \<noteq> c) [x]"
      by (rule takeWhile_all_append)
    then show ?thesis
      using False by (auto simp: strings_Split_free)
  qed
qed

lemma strings_Split_last_append:
  assumes "c \<notin> set b"
  shows "last (strings_Split c (a @ b)) = last (strings_Split c a) @ b"
proof -
  have "\<forall>y\<in>set (rev b). y \<noteq> c" using assms by auto
  then have "takeWhile (\<lambda>y. y \<noteq> c) (rev b @ rev a) = rev b @ takeWhile (\<lambda>y. y \<noteq> c) (rev a)"
    by (rule takeWhile_all_append)
  then show ?thesis by (simp add: strings_Split_last)
qed

lemma strings_Split_last_free: "c \<notin> set (last (strings_Split c s))"
proof -
  have "set (takeWhile (\<lambda>y. y \<noteq> c) (rev s)) \<subseteq> {y. y \<noteq> c}"
    by (auto dest: set_takeWhileD)
  then show ?thesis by (auto simp: strings_Split_last)
qed

lemma join_slash_snoc:
  "cs \<noteq> [] \<Longrightarrow> join_slash (cs @ [n]) = join_slash cs @ CHR ''/'' # n"
  by (induction cs rule: join_slash.induct) auto

lemma path_Join_last:
  assumes "n \<noteq> []" "CHR ''/'' \<notin> set n" "n \<noteq> ''.''" "n \<noteq> ''..''"
  shows "last (strings_Split CHR ''/'' (path_Join [d, n])) = n"
proof (cases "d = []")
  case True
  have "hd n \<noteq> CHR ''/''" using assms(1,2) by (cases n) auto
  moreover have "foldl (clean_step False) [] [n] = [n]"
    using assms by (simp add: clean_step_def)
  ultimately have "path_Join [d, n] = n"
    using True assms by (simp add: path_Join_def path_Clean_def strings_Split_free Let_def)
  then show ?thesis using assms(2) by (simp add: strings_Split_free)
next
  case False
  define p where "p = d @ CHR ''/'' # n"
  define r where "r = (hd p = CHR ''/'')"
  define out where "out = foldl (clean_step r) [] (strings_Split CHR ''/'' d)"
  have p_ne: "p \<noteq> []" by (simp add: p_def)
  have sp: "strings_Split CHR ''/'' p = strings_Split CHR ''/'' d @ [n]"
    using assms(2) by (simp add: p_def strings_Split_sep strings_Split_free)
  have fo: "foldl (clean_step r) [] (strings_Split CHR ''/'' p) = out @ [n]"
    using assms by (simp add: sp out_def clean_step_def)
  have pj: "path_Join [d, n] = path_Clean p"
    using False assms(1) by (simp add: path_Join_def p_def)
  have js: "join_slash (out @ [n]) = n \<or> (\<exists>x. join_slash (out @ [n]) = x @ CHR ''/'' # n)"
    by (cases "out = []") (simp_all add: join_slash_snoc)
  have pc: "path_Clean p =
      (if r then CHR ''/'' # join_slash (out @ [n])
       else if join_slash (out @ [n]) = [] then ''.'' else join_slash (out @ [n]))"
    unfolding path_Clean_def Let_def r_def [symmetric] fo using p_ne by simp
  have "path_Clean p = n \<or> (\<exists>x. path_Clean p = x @ CHR ''/'' # n)"
  proof (cases r)
    case True
    from js show ?thesis
    proof
      assume "join_slash (out @ [n]) = n"
      then have "path_Clean p = [] @ CHR ''/'' # n" using pc True by simp
      then show ?thesis by blast
    next
      assume "\<exists>x. join_slash (out @ [n]) = x @ CHR ''/'' # n"
      then obtain x where "join_slash (out @ [n]) = x @ CHR ''/'' # n" ..
      then have "path_Clean p = (CHR ''/'' # x) @ CHR ''/'' # n" using pc True by simp
      then show ?thesis by blast
    qed
  next
    case False
    then show ?thesis using js pc assms(1) by auto
  qed
  then show ?thesis
    using assms(2) by (auto simp: pj strings_Split_sep strings_Split_free)
qed

section \<open>The invariant of the pipeline\<close>

lemma count_where_Nil [simp]: "count_where P [] = 0"
  by (simp add: count_where_def)

lemma count_where_snoc [simp]:
  "count_where P (xs @ [(a, v)]) = count_where P xs + (if P v then 1 else 0)"
  by (simp add: count_where_def)


lemma count_where_Cons [simp]:
  "count_where P ((a, v) # xs) = count_where P xs + (if P v then 1 else 0)"
  by (simp add: count_where_def)

lemma count_where_update:
  "i < length xs \<Longrightarrow>
   count_where P (xs[i := (a, v)])
     = count_where P xs - (if P (snd (xs ! i)) then 1 else 0) + (if P v then 1 else 0)"
proof (induction xs arbitrary: i)
  case Nil
  then show ?case by simp
next
  case (Cons x xs)
  obtain b u where x: "x = (b, u)" by (cases x)
  show ?case
  proof (cases i)
    case 0
    then show ?thesis by (simp add: x)
  next
    case (Suc j)
    then have "j < length xs" using Cons.prems by simp
    from Cons.IH [OF this] show ?thesis by (simp add: x Suc)
  qed
qed

lemma count_where_pos:
  assumes "i < length xs" "P (snd (xs ! i))"
  shows "0 < count_where P xs"
proof -
  have "xs ! i \<in> set xs" using assms(1) by simp
  then have "filter (\<lambda>x. P (snd x)) xs \<noteq> []"
    using assms(2) by (auto simp: filter_empty_conv)
  then show ?thesis by (simp add: count_where_def)
qed

lemma count_where_zero: "count_where P xs = 0 \<Longrightarrow> x \<in> set xs \<Longrightarrow> \<not> P (snd x)"
  by (auto simp: count_where_def filter_empty_conv)


lemma init_ok: "pipeline_ok s (init s)"
  by (simp add: pipeline_ok_def coordinator_ok_def dispatcher_ok_def no_misuse_def
      fetchers_ok_def init_def)


lemma coordinator_step_coordinator_ok:
  "coordinator_step s a p = Some p' \<Longrightarrow> coordinator_ok s p \<Longrightarrow> coordinator_ok s p'"
  by (cases a; cases "coordinator_at p")
     (auto simp: coordinator_ok_def split: if_splits)


lemma coordinator_step_dispatcher_ok:
  "coordinator_step s a p = Some p' \<Longrightarrow> dispatcher_ok s p \<Longrightarrow> dispatcher_ok s p'"
  by (cases a; cases "coordinator_at p"; cases "dispatcher_at p")
     (auto simp: dispatcher_ok_def split: if_splits)

lemma coordinator_step_rest:
  "coordinator_step s a p = Some p' \<Longrightarrow> no_misuse p \<Longrightarrow> fetchers_ok p
   \<Longrightarrow> no_misuse p' \<and> fetchers_ok p'"
  by (cases a; cases "coordinator_at p")
     (auto simp: no_misuse_def fetchers_ok_def split: if_splits)

lemma dispatcher_step_coordinator_ok:
  "dispatcher_step s a p = Some p' \<Longrightarrow> coordinator_ok s p \<Longrightarrow> coordinator_ok s p'"
  by (cases a; cases "dispatcher_at p"; cases "coordinator_at p")
     (auto simp: coordinator_ok_def split: if_splits)

lemma dispatcher_step_dispatcher_ok:
  "dispatcher_step s a p = Some p' \<Longrightarrow> dispatcher_ok s p \<Longrightarrow> dispatcher_ok s p'"
  by (cases a; cases "dispatcher_at p")
     (auto simp: dispatcher_ok_def split: if_splits)

lemma dispatcher_step_rest:
  "dispatcher_step s a p = Some p' \<Longrightarrow> no_misuse p \<Longrightarrow> fetchers_ok p
   \<Longrightarrow> no_misuse p' \<and> fetchers_ok p'"
  by (cases a; cases "dispatcher_at p")
     (auto simp: no_misuse_def fetchers_ok_def split: if_splits)

lemma redditChildToImage_panic: "redditChildToImage c = Inl e \<Longrightarrow> e = NilPointerDereference"
  by (auto simp: redditChildToImage_def Let_def split: option.splits)

lemma filter_children_panic: "filter_children acc cs = Inl e \<Longrightarrow> e = NilPointerDereference"
  by (induction cs arbitrary: acc) (auto split: option.splits if_splits)

lemma convert_children_panic:
  "convert_children k cs out = Inl e \<Longrightarrow> e = NilPointerDereference"
  by (induction cs arbitrary: k out)
     (auto split: sum.splits if_splits dest: redditChildToImage_panic)

lemma parseLinksFromListings_panic:
  "parseLinksFromListings l = Inl e \<Longrightarrow> e = NilPointerDereference"
  by (auto simp: parseLinksFromListings_def split: option.splits if_splits sum.splits
           dest: filter_children_panic convert_children_panic)

lemma metadata_links_panic:
  "metadata_links w s sub = Inl e \<Longrightarrow> e = NilPointerDereference \<or> e = LogPanic \<or> e = LogFatal"
  by (auto simp: metadata_links_def gatherRedditFeed_def Let_def
           split: sum.splits if_splits option.splits prod.splits
           dest: parseLinksFromListings_panic)

lemma mark_image_panic: "mark_image sub img ids = Inl e \<Longrightarrow> e = AssignmentToNilMap"
  by (auto simp: mark_image_def Let_def split: option.splits)

lemma fetchers_ok_update:
  "fetchers_ok p \<Longrightarrow> (\<And>e. panic_of f = Some e \<Longrightarrow> \<not> misuse e) \<Longrightarrow> fetchers p' = (fetchers p)[i := (a, f)]
   \<Longrightarrow> fetchers_ok p'"
  unfolding fetchers_ok_def
  by (metis insertE set_update_subset_insert snd_conv subsetD)

lemma fetcher_step_coordinator_ok:
  assumes "i < length (fetchers p)"
    and "fetcher_step s a i sub (snd (fetchers p ! i)) p = Some p'"
    and "coordinator_ok s p"
  shows "coordinator_ok s p'"
  using assms count_where_pos [of i "fetchers p" fetching]
  by (cases a; cases "snd (fetchers p ! i)"; cases "coordinator_at p")
     (auto simp: coordinator_ok_def set_fetcher_def count_where_update wg_Done_def
           split: if_splits sum.splits prod.splits list.splits)


lemma coordinator_ok_wg:
  "coordinator_ok s p \<Longrightarrow> count_where fetching (fetchers p) \<le> downloadWaitGroup p"
  by (cases "coordinator_at p") (auto simp: coordinator_ok_def)

lemma coordinator_ok_closed:
  "coordinator_ok s p \<Longrightarrow> queue_closed p \<Longrightarrow> count_where fetching (fetchers p) = 0"
  by (cases "coordinator_at p") (auto simp: coordinator_ok_def)

lemma fetcher_step_frame:
  assumes "fetcher_step s a i sub f p = Some p'"
  shows "workers p' = workers p \<and> waitGroup p' = waitGroup p \<and> sem_cur p' = sem_cur p
         \<and> queue_closed p' = queue_closed p \<and> messages_closed p' = messages_closed p
         \<and> (dispatcher_at p' = dispatcher_at p
              \<or> dispatcher_at p = DRecv \<and> dispatcher_at p' = DGot (case f of FSend img links \<Rightarrow> img))"
  using assms
  by (cases a; cases f)
     (auto simp: set_fetcher_def split: if_splits sum.splits prod.splits list.splits)

lemma fetcher_step_dispatcher_ok:
  assumes "fetcher_step s a i sub f p = Some p'" and "dispatcher_ok s p"
  shows "dispatcher_ok s p'"
  using fetcher_step_frame [OF assms(1)] assms(2)
  by (cases "dispatcher_at p") (auto simp: dispatcher_ok_def)

lemma fetcher_step_no_misuse:
  assumes "i < length (fetchers p)"
    and "fetcher_step s a i sub (snd (fetchers p ! i)) p = Some p'"
    and "coordinator_ok s p" and "no_misuse p" and "fetchers_ok p"
  shows "no_misuse p'"
proof -
  have dying: "\<And>e. snd (fetchers p ! i) = FDying e \<Longrightarrow> \<not> misuse e"
    using assms(1,5) by (auto simp: fetchers_ok_def dest: nth_mem)
  have pos: "fetching (snd (fetchers p ! i)) \<Longrightarrow> 0 < downloadWaitGroup p \<and> \<not> queue_closed p"
    using count_where_pos [of i "fetchers p" fetching] assms(1)
      coordinator_ok_wg [OF assms(3)] coordinator_ok_closed [OF assms(3)]
    by auto
  show ?thesis
    using assms(2,4) dying pos
    by (cases a; cases "snd (fetchers p ! i)")
       (auto simp: no_misuse_def set_fetcher_def wg_Done_def misuse_def
             split: if_splits sum.splits prod.splits list.splits)
qed

lemma fetchers_ok_frame [simp]:
  "fetchers_ok (p\<lparr>image_ids := x\<rparr>) = fetchers_ok p"
  "fetchers_ok (p\<lparr>bar_max := m\<rparr>) = fetchers_ok p"
  "fetchers_ok (p\<lparr>dispatcher_at := d\<rparr>) = fetchers_ok p"
  "fetchers_ok (p\<lparr>downloadWaitGroup := c\<rparr>) = fetchers_ok p"
  "fetchers_ok (p\<lparr>crashed := r\<rparr>) = fetchers_ok p"
  by (simp_all add: fetchers_ok_def)

lemma fetchers_ok_set_fetcher:
  "fetchers_ok p \<Longrightarrow> (\<And>e. panic_of f = Some e \<Longrightarrow> \<not> misuse e) \<Longrightarrow> fetchers_ok (set_fetcher i f p)"
  by (rule fetchers_ok_update [where p = p and f = f and i = i]) (simp_all add: set_fetcher_def)

lemma fetcher_step_fetchers_ok:
  assumes "i < length (fetchers p)"
    and "fetcher_step s a i sub (snd (fetchers p ! i)) p = Some p'"
    and "fetchers_ok p"
  shows "fetchers_ok p'"
proof -
  have old: "\<And>e. panic_of (snd (fetchers p ! i)) = Some e \<Longrightarrow> \<not> misuse e"
    using assms(1,3) by (auto simp: fetchers_ok_def dest: nth_mem)
  show ?thesis
    using assms(2,3) old
    by (cases a; cases "snd (fetchers p ! i)")
       (auto simp: wg_Done_def misuse_def
             split: if_splits sum.splits prod.splits list.splits
             intro!: fetchers_ok_set_fetcher dest: metadata_links_panic mark_image_panic)
qed

lemma worker_step_frame:
  assumes "worker_step s a i img v p = Some p'"
  shows "fetchers p' = fetchers p \<and> downloadWaitGroup p' = downloadWaitGroup p
         \<and> coordinator_at p' = coordinator_at p \<and> queue_closed p' = queue_closed p
         \<and> dispatcher_at p' = dispatcher_at p \<and> messages_closed p' = messages_closed p"
  using assms
  by (cases a; cases v)
     (auto simp: set_worker_def Let_def split: if_splits sum.splits list.splits)

lemma worker_step_coordinator_ok:
  assumes "worker_step s a i img v p = Some p'" and "coordinator_ok s p"
  shows "coordinator_ok s p'"
  using worker_step_frame [OF assms(1)] assms(2)
  by (cases "coordinator_at p") (auto simp: coordinator_ok_def)

lemma worker_step_rest:
  assumes "i < length (workers p)"
    and "worker_step s a i img (snd (workers p ! i)) p = Some p'"
    and "dispatcher_ok s p" and "no_misuse p" and "fetchers_ok p"
  shows "no_misuse p' \<and> fetchers_ok p'"
proof -
  have live: "working (snd (workers p ! i)) \<Longrightarrow> 0 < waitGroup p \<and> \<not> messages_closed p"
    using count_where_pos [of i "workers p" working] assms(1,3)
    by (cases "dispatcher_at p") (auto simp: dispatcher_ok_def)
  have held: "holding (snd (workers p ! i)) \<Longrightarrow> 0 < sem_cur p"
    using count_where_pos [of i "workers p" holding] assms(1,3)
    by (cases "dispatcher_at p") (auto simp: dispatcher_ok_def)
  have fo: "fetchers_ok p'"
    using worker_step_frame [OF assms(2)] assms(5) by (simp add: fetchers_ok_def)
  have "no_misuse p'"
    using assms(2,4) live held
    by (cases a; cases "snd (workers p ! i)")
       (auto simp: no_misuse_def set_worker_def wg_Done_def Let_def
             split: if_splits sum.splits list.splits)
  with fo show ?thesis by simp
qed

lemma worker_step_dispatcher_ok:
  assumes "i < length (workers p)"
    and "worker_step s a i img (snd (workers p ! i)) p = Some p'"
    and "dispatcher_ok s p"
  shows "dispatcher_ok s p'"
  using assms count_where_pos [of i "workers p" working] count_where_pos [of i "workers p" holding]
  by (cases a; cases "snd (workers p ! i)"; cases "dispatcher_at p")
     (auto simp: dispatcher_ok_def set_worker_def count_where_update wg_Done_def Let_def
           split: if_splits sum.splits list.splits)

lemma act_ok:
  assumes "act s a p = Some p'" and "pipeline_ok s p"
  shows "pipeline_ok s p'"
proof (cases a)
  case (ByCoordinator c)
  then show ?thesis
    using assms coordinator_step_coordinator_ok coordinator_step_dispatcher_ok
      coordinator_step_rest
    by (auto simp: pipeline_ok_def)
next
  case (ByFetcher i c)
  then have i: "i < length (fetchers p)"
    and st: "fetcher_step s c i (fst (fetchers p ! i)) (snd (fetchers p ! i)) p = Some p'"
    using assms(1) by (auto split: if_splits)
  show ?thesis
    using assms(2) fetcher_step_coordinator_ok [OF i st] fetcher_step_dispatcher_ok [OF st]
      fetcher_step_no_misuse [OF i st] fetcher_step_fetchers_ok [OF i st]
    by (simp add: pipeline_ok_def)
next
  case (ByDispatcher c)
  then show ?thesis
    using assms dispatcher_step_coordinator_ok dispatcher_step_dispatcher_ok
      dispatcher_step_rest
    by (auto simp: pipeline_ok_def)
next
  case (ByWorker i c)
  then have i: "i < length (workers p)"
    and st: "worker_step s c i (fst (workers p ! i)) (snd (workers p ! i)) p = Some p'"
    using assms(1) by (auto split: if_splits)
  show ?thesis
    using assms(2) worker_step_coordinator_ok [OF st] worker_step_dispatcher_ok [OF i st]
      worker_step_rest [OF i st]
    by (simp add: pipeline_ok_def)
next
  case ByStart
  then show ?thesis
    using assms
    by (cases "coordinator_at p"; cases "dispatcher_at p")
       (auto simp: Start_finish_def pipeline_ok_def coordinator_ok_def dispatcher_ok_def
             no_misuse_def fetchers_ok_def split: if_splits)
qed

lemma step_ok: "step s a p = Some p' \<Longrightarrow> pipeline_ok s p \<Longrightarrow> pipeline_ok s p'"
  by (auto simp: step_def split: if_splits intro: act_ok)

lemma exec_ok: "exec s acts p = Some p' \<Longrightarrow> pipeline_ok s p \<Longrightarrow> pipeline_ok s p'"
  by (induction acts arbitrary: p) (auto split: option.splits intro: step_ok)

lemma reachable_ok: "exec s acts (init s) = Some p \<Longrightarrow> pipeline_ok s p"
  using exec_ok init_ok by blast

section \<open>The example runs\<close>

lemmas example_defs =
  example_scraper_def example_world_def example_listing_def example_entry_def
  two_feeds_def one_image_def two_images_def no_images_def network_down_def
  malformed_payload_def blank_feed_def

lemmas fetch_defs =
  metadata_links_def gatherRedditFeed_def UnmarshalListing_def ensure_ids_def mark_image_def
  parseLinksFromListings_def redditChildToImage_def strings_TrimSpace_def space_runes_def
  trim_left.simps

lemmas pipeline_defs =
  init_def step_def set_fetcher_def set_worker_def wg_Done_def downloadImage_def
  Start_msg_def Start_finish_def Let_def

lemma run_to_download_result:
  "\<exists>p. exec (example_scraper ''out'' False) run_to_download (init (example_scraper ''out'' False)) = Some p
     \<and> map (downloading \<circ> snd) (workers p) = [True] \<and> sem_cur p = 1 \<and> crashed p = None"
  by (simp add: run_to_download_def example_defs fetch_defs pipeline_defs)


lemma complete_run_result:
  "\<exists>p. exec (example_scraper ''out'' False) complete_run (init (example_scraper ''out'' False)) = Some p
     \<and> summary p = Some (2, 1, 0, 0) \<and> messages_closed p \<and> queue_closed p
     \<and> map snd (fetchers p) = [FDone] \<and> map snd (workers p) = [WExited]
     \<and> sem_cur p = 0 \<and> crashed p = None"
  by (simp add: complete_run_def run_to_return_def run_to_download_def example_defs fetch_defs
      pipeline_defs)

lemma racing_run_result:
  "\<exists>p. exec two_feeds racing_run (init two_feeds) = Some p
     \<and> bar_max p = 1 \<and> downloaded (counts p) = 2 \<and> skipped (counts p) = 0
     \<and> failed (counts p) = 0 \<and> crashed p = None"
  by (simp add: racing_run_def racing_start_def example_defs fetch_defs pipeline_defs)

lemma failing_run_result:
  "\<exists>p. exec two_feeds failing_run (init two_feeds) = Some p
     \<and> crashed p = Some LogPanic \<and> map snd (fetchers p) = [FDying LogPanic, FStart]"
  by (simp add: failing_run_def start_first_def example_defs fetch_defs pipeline_defs)

lemma start_first_result:
  "\<exists>p. exec two_feeds start_first (init two_feeds) = Some p
     \<and> fetchers p = [(''pics'', FGather), (''cats'', FStart)]
     \<and> crashed p = None \<and> bar_max p = 1 \<and> downloadWaitGroup p = 2"
  by (simp add: start_first_def example_defs pipeline_defs ensure_ids_def)

lemma start_first_blank_result:
  "\<exists>p. exec blank_feed start_first (init blank_feed) = Some p
     \<and> fetchers p = [('' '', FGather), (''cats'', FStart)]
     \<and> crashed p = None \<and> bar_max p = 1 \<and> downloadWaitGroup p = 2"
  by (simp add: start_first_def example_defs pipeline_defs ensure_ids_def)

lemma racing_start_result:
  "\<exists>p. exec two_feeds racing_start (init two_feeds) = Some p
     \<and> snd (fetchers p ! 1) = FChangeMax 1 [] \<and> length (fetchers p) = 2
     \<and> crashed p = None \<and> bar_max p = 3"
  by (simp add: racing_start_def example_defs fetch_defs pipeline_defs)

section \<open>Facts about the aggregator and the worker\<close>

lemma Start_loop_counts:
  "Start_loop ms t =
     \<lparr>downloaded = downloaded t + int (length (filter (\<lambda>m. snd m = SUCCESS) ms)),
      skipped = skipped t + int (length (filter (\<lambda>m. snd m = SKIPPED) ms)),
      failed = failed t + int (length (filter (\<lambda>m. snd m = FAILED) ms))\<rparr>"
  by (induction ms arbitrary: t) (auto simp: Start_msg_def split: DownloadState.splits)

lemma filter_length_mset:
  "mset xs = mset ys \<Longrightarrow> length (filter P xs) = length (filter P ys)"
  by (metis mset_filter size_mset)

lemma downloadImage_existing:
  "\<not> stat_IsNotExist w (image_path s outDir img) \<Longrightarrow>
   downloadImage w s outDir img =
     \<lparr>msgs = [(img, DOWNLOADING), (rewrite_link img, SKIPPED)],
      calls = [Stat (image_path s outDir img)], fatal = False\<rparr>"
  by (simp add: downloadImage_def Let_def)

lemma all_skipped_msgs:
  assumes "\<forall>img \<in> set imgs. \<not> stat_IsNotExist w (image_path s (worker_outDir s img) img)"
  shows "length (filter (\<lambda>m. snd m = st)
           (concat (map (\<lambda>img. msgs (downloadImage w s (worker_outDir s img) img)) imgs)))
         = (if st = SKIPPED \<or> st = DOWNLOADING then length imgs else 0)"
  using assms by (induction imgs) (auto simp: downloadImage_existing)

section \<open>Facts about a fetcher without links\<close>

lemma rest_unchanged_set_fetcher:
  "i < length (fetchers p) \<Longrightarrow> rest_unchanged i p (set_fetcher i f p)"
  "i < length (fetchers p) \<Longrightarrow> rest_unchanged i p (set_fetcher i f (p\<lparr>bar_max := n\<rparr>))"
  "i < length (fetchers p) \<Longrightarrow> rest_unchanged i p (set_fetcher i f (p\<lparr>downloadWaitGroup := c\<rparr>))"
  by (simp_all add: rest_unchanged_def set_fetcher_def)

lemma fetching_has_count:
  assumes "exec s acts (init s) = Some p" and "i < length (fetchers p)"
    and "fetching (snd (fetchers p ! i))"
  shows "1 \<le> downloadWaitGroup p"
proof -
  have "coordinator_ok s p" using reachable_ok [OF assms(1)] by (simp add: pipeline_ok_def)
  then have "count_where fetching (fetchers p) \<le> downloadWaitGroup p" by (rule coordinator_ok_wg)
  moreover have "0 < count_where fetching (fetchers p)"
    using assms(2,3) by (rule count_where_pos)
  ultimately show ?thesis by simp
qed

lemma recovered_links:
  "gatherRedditFeed w s sub = Inr (l, True) \<Longrightarrow> Listings_Data l = None
   \<Longrightarrow> metadata_links w s sub = Inr []"
  by (simp add: metadata_links_def parseLinksFromListings_def)

lemma network_error_links:
  "strings_TrimSpace sub \<noteq> [] \<Longrightarrow> new_request_ok w (determineRedditUrl s sub)
   \<Longrightarrow> client_Do w (determineRedditUrl s sub) = None
   \<Longrightarrow> metadata_links w s sub = Inl LogPanic"
  by (simp add: metadata_links_def gatherRedditFeed_def Let_def)

lemma empty_handed_run:
  assumes "i < length (fetchers p)" and "crashed p = None"
    and "fetchers p ! i = (sub, FGather)" and "metadata_links w s sub = Inr []"
    and "1 \<le> downloadWaitGroup p"
  shows "\<exists>p'. exec s [ByFetcher i (FFetch w), ByFetcher i FReadMax, ByFetcher i FWriteMax,
                      ByFetcher i FReturn] p = Some p'
            \<and> snd (fetchers p' ! i) = FDone \<and> rest_unchanged i p p'
            \<and> bar_max p' = bar_max p
            \<and> downloadWaitGroup p' = downloadWaitGroup p - 1"
  using assms
  by (simp add: step_def set_fetcher_def wg_Done_def rest_unchanged_def)

lemma panicking_run:
  assumes "i < length (fetchers p)" and "crashed p = None"
    and "fetchers p ! i = (sub, FGather)" and "metadata_links w s sub = Inl LogPanic"
    and "1 \<le> downloadWaitGroup p"
  shows "\<exists>p'. exec s [ByFetcher i (FFetch w), ByFetcher i FUnwind, ByFetcher i FDie] p = Some p'
            \<and> crashed p' = Some LogPanic \<and> (\<forall>a. step s a p' = None)"
  using assms
  by (simp add: step_def set_fetcher_def wg_Done_def)

section \<open>The claims\<close>

text \<open>
  C1. The claim: entries whose image id is empty or already in the feed's id set are
  dropped before the queue, so five filter-passing entries of which two share an image
  id schedule four candidates. The code only writes the id set, it never reads it, and
  a blank image id leaves a zero-valued image in the slice: at a feed of five entries
  with the image ids a, b, a, c, d all five are sent and the maximum of the progress
  bar grows by five; an entry whose image id is empty is sent as the zero image.
\<close>

theorem duplicate_ids_are_enqueued:
  "\<exists>ids sent.
     downloadMetadata
       (example_world (example_listing
          [''https://i.imgur.com/a.jpg'', ''https://i.imgur.com/b.jpg'',
           ''https://i.imgur.com/a.jpg'', ''https://i.imgur.com/c.jpg'',
           ''https://i.imgur.com/d.jpg'']))
       (example_scraper ''out'' False) ''pics'' Map.empty 1 = Inr (ids, 6, sent)
     \<and> map imageId sent = [''a'', ''b'', ''a'', ''c'', ''d'']
     \<and> parseLinksFromListings (example_listing [''https://i.imgur.com/.jpg''])
         = Inr [zero_Image]"
  by (simp add: downloadMetadata_def metadata_links_def gatherRedditFeed_def
      UnmarshalListing_def example_world_def ensure_ids_def mark_image_def
      parseLinksFromListings_def example_listing_def example_entry_def
      redditChildToImage_def strings_TrimSpace_def space_runes_def trim_left.simps)

text \<open>
  C2, as stated: a feed whose fetch fails with a network error is recovered at the
  scope of that feed, its sibling feeds continue and the process does not end early.
  It does not hold. With the feeds \<open>pics\<close> and \<open>cats\<close> and a network that is down,
  the fetcher of \<open>pics\<close> panics in \<open>gatherRedditFeed\<close> (\<open>log.Panic\<close>), nothing
  recovers the panic, and the process ends while the fetcher of \<open>cats\<close> has not run a
  statement: no action is enabled any more.
\<close>

theorem network_error_ends_process:
  "\<exists>p. exec two_feeds failing_run (init two_feeds) = Some p
     \<and> crashed p = Some LogPanic
     \<and> map snd (fetchers p) = [FDying LogPanic, FStart]
     \<and> (\<forall>a. step two_feeds a p = None)
     \<and> metadata_links network_down two_feeds ''pics'' = Inl LogPanic"
proof -
  obtain p where e: "exec two_feeds failing_run (init two_feeds) = Some p"
    and r: "crashed p = Some LogPanic" "map snd (fetchers p) = [FDying LogPanic, FStart]"
    using failing_run_result by auto
  have "\<forall>a. step two_feeds a p = None" using r(1) by (simp add: step_def)
  moreover have "metadata_links network_down two_feeds ''pics'' = Inl LogPanic"
    by (simp add: example_defs fetch_defs)
  ultimately show ?thesis using e r by auto
qed

text \<open>
  C2, amended. In every state the program reaches, for the fetcher of any feed:
  a network error of the feed request is not recovered. \<open>gatherRedditFeed\<close> panics
  (\<open>log.Panic\<close>); the fetcher's next statements are the deferred \<open>Done\<close> and the end of
  the process, both enabled whatever the other goroutines do, and after them no
  goroutine takes a step. What is recovered at the scope of the feed is a failure that
  \<open>gatherRedditFeed\<close> returns as an error with a listing without data (a blank feed
  name always, without a request; a payload the decoder rejects): the fetcher goes on
  with no links; its statements are \<open>GetMax\<close>, \<open>ChangeMax\<close> and the return with
  \<open>Done\<close>, each enabled whatever the other goroutines do; it never sends to the queue
  and never ends the process; and what it changes is its own place, the counter of
  the wait group and the maximum of the progress bar, nothing else. To the maximum it
  writes the value it read plus 0: the same maximum when the fetcher runs without
  another in between, and the older value, undoing the other's addition, when another
  fetcher wrote between its \<open>GetMax\<close> and its \<open>ChangeMax\<close>.
\<close>

theorem fetch_failure_recovery:
  assumes "exec s acts (init s) = Some p" and "i < length (fetchers p)"
    and "crashed p = None" and "fst (fetchers p ! i) = sub"
  shows
   "(strings_TrimSpace sub = [] \<longrightarrow>
       gatherRedditFeed w s sub = Inr (\<lparr>Listings_Data = None\<rparr>, True))
    \<and> (gatherRedditFeed w s sub = Inr (l, True) \<and> Listings_Data l = None \<longrightarrow>
          downloadMetadata w s sub ids m = Inr (ensure_ids sub ids, m, [])
        \<and> (snd (fetchers p ! i) = FGather \<longrightarrow>
             step s (ByFetcher i (FFetch w)) p = Some (set_fetcher i (FGetMax []) p)
           \<and> (\<exists>p'. exec s [ByFetcher i (FFetch w), ByFetcher i FReadMax,
                             ByFetcher i FWriteMax, ByFetcher i FReturn] p = Some p'
                  \<and> snd (fetchers p' ! i) = FDone \<and> rest_unchanged i p p'
                  \<and> bar_max p' = bar_max p
                  \<and> downloadWaitGroup p' = downloadWaitGroup p - 1)))
    \<and> (snd (fetchers p ! i) = FGetMax [] \<longrightarrow>
          step s (ByFetcher i FReadMax) p
            = Some (set_fetcher i (FChangeMax (bar_max p) []) p))
    \<and> (snd (fetchers p ! i) = FChangeMax n [] \<longrightarrow>
          step s (ByFetcher i FWriteMax) p
            = Some (set_fetcher i (FLoop []) (p\<lparr>bar_max := n\<rparr>)))
    \<and> (snd (fetchers p ! i) = FLoop [] \<longrightarrow>
          step s (ByFetcher i FMark) p = None \<and> step s (ByFetcher i FSendTo) p = None
        \<and> step s (ByFetcher i FReturn) p
            = Some (set_fetcher i FDone (p\<lparr>downloadWaitGroup := downloadWaitGroup p - 1\<rparr>)))
    \<and> rest_unchanged i p (set_fetcher i f p)
    \<and> rest_unchanged i p (set_fetcher i f (p\<lparr>bar_max := n\<rparr>))
    \<and> rest_unchanged i p (set_fetcher i f (p\<lparr>downloadWaitGroup := c\<rparr>))
    \<and> (strings_TrimSpace sub \<noteq> [] \<and> new_request_ok w (determineRedditUrl s sub)
          \<and> client_Do w (determineRedditUrl s sub) = None \<longrightarrow>
          metadata_links w s sub = Inl LogPanic
        \<and> (snd (fetchers p ! i) = FGather \<longrightarrow>
             step s (ByFetcher i (FFetch w)) p = Some (set_fetcher i (FPanicking LogPanic) p)
           \<and> (\<exists>p'. exec s [ByFetcher i (FFetch w), ByFetcher i FUnwind, ByFetcher i FDie] p
                       = Some p'
                  \<and> crashed p' = Some LogPanic \<and> (\<forall>a. step s a p' = None))))
    \<and> (snd (fetchers p ! i) = FPanicking e \<longrightarrow>
          step s (ByFetcher i FUnwind) p
            = Some (set_fetcher i (FDying e) (p\<lparr>downloadWaitGroup := downloadWaitGroup p - 1\<rparr>)))
    \<and> (snd (fetchers p ! i) = FDying e \<longrightarrow>
          step s (ByFetcher i FDie) p = Some (p\<lparr>crashed := Some e\<rparr>)
        \<and> (\<forall>a. step s a (p\<lparr>crashed := Some e\<rparr>) = None))"
proof -
  note wg = fetching_has_count [OF assms(1,2)]
  have pair: "\<And>f. snd (fetchers p ! i) = f \<Longrightarrow> fetchers p ! i = (sub, f)"
    using assms(4) by (cases "fetchers p ! i") auto
  have blank: "strings_TrimSpace sub = [] \<longrightarrow>
       gatherRedditFeed w s sub = Inr (\<lparr>Listings_Data = None\<rparr>, True)"
    by (simp add: gatherRedditFeed_def)
  have rec: "gatherRedditFeed w s sub = Inr (l, True) \<and> Listings_Data l = None \<longrightarrow>
          downloadMetadata w s sub ids m = Inr (ensure_ids sub ids, m, [])
        \<and> (snd (fetchers p ! i) = FGather \<longrightarrow>
             step s (ByFetcher i (FFetch w)) p = Some (set_fetcher i (FGetMax []) p)
           \<and> (\<exists>p'. exec s [ByFetcher i (FFetch w), ByFetcher i FReadMax,
                             ByFetcher i FWriteMax, ByFetcher i FReturn] p = Some p'
                  \<and> snd (fetchers p' ! i) = FDone \<and> rest_unchanged i p p'
                  \<and> bar_max p' = bar_max p
                  \<and> downloadWaitGroup p' = downloadWaitGroup p - 1))"
  proof (intro impI conjI)
    assume g: "gatherRedditFeed w s sub = Inr (l, True) \<and> Listings_Data l = None"
    then have ml: "metadata_links w s sub = Inr []" by (simp add: recovered_links)
    show "downloadMetadata w s sub ids m = Inr (ensure_ids sub ids, m, [])"
      by (simp add: downloadMetadata_def ml)
    assume f: "snd (fetchers p ! i) = FGather"
    show "step s (ByFetcher i (FFetch w)) p = Some (set_fetcher i (FGetMax []) p)"
      using assms(2,3,4) f ml by (simp add: step_def)
    show "\<exists>p'. exec s [ByFetcher i (FFetch w), ByFetcher i FReadMax,
                             ByFetcher i FWriteMax, ByFetcher i FReturn] p = Some p'
                  \<and> snd (fetchers p' ! i) = FDone \<and> rest_unchanged i p p'
                  \<and> bar_max p' = bar_max p
                  \<and> downloadWaitGroup p' = downloadWaitGroup p - 1"
      using assms(2,3) pair [OF f] ml wg f by (intro empty_handed_run) simp_all
  qed
  have readmax: "snd (fetchers p ! i) = FGetMax [] \<longrightarrow>
          step s (ByFetcher i FReadMax) p
            = Some (set_fetcher i (FChangeMax (bar_max p) []) p)"
    using assms(2,3) by (simp add: step_def)
  have writemax: "snd (fetchers p ! i) = FChangeMax n [] \<longrightarrow>
          step s (ByFetcher i FWriteMax) p
            = Some (set_fetcher i (FLoop []) (p\<lparr>bar_max := n\<rparr>))"
    using assms(2,3) by (simp add: step_def)
  have ret: "snd (fetchers p ! i) = FLoop [] \<longrightarrow>
          step s (ByFetcher i FMark) p = None \<and> step s (ByFetcher i FSendTo) p = None
        \<and> step s (ByFetcher i FReturn) p
            = Some (set_fetcher i FDone (p\<lparr>downloadWaitGroup := downloadWaitGroup p - 1\<rparr>))"
    using assms(2,3) wg by (auto simp: step_def wg_Done_def)
  have net: "strings_TrimSpace sub \<noteq> [] \<and> new_request_ok w (determineRedditUrl s sub)
          \<and> client_Do w (determineRedditUrl s sub) = None \<longrightarrow>
          metadata_links w s sub = Inl LogPanic
        \<and> (snd (fetchers p ! i) = FGather \<longrightarrow>
             step s (ByFetcher i (FFetch w)) p = Some (set_fetcher i (FPanicking LogPanic) p)
           \<and> (\<exists>p'. exec s [ByFetcher i (FFetch w), ByFetcher i FUnwind, ByFetcher i FDie] p
                       = Some p'
                  \<and> crashed p' = Some LogPanic \<and> (\<forall>a. step s a p' = None)))"
  proof (intro impI conjI)
    assume "strings_TrimSpace sub \<noteq> [] \<and> new_request_ok w (determineRedditUrl s sub)
          \<and> client_Do w (determineRedditUrl s sub) = None"
    then show ml: "metadata_links w s sub = Inl LogPanic" by (simp add: network_error_links)
    assume f: "snd (fetchers p ! i) = FGather"
    show "step s (ByFetcher i (FFetch w)) p = Some (set_fetcher i (FPanicking LogPanic) p)"
      using assms(2,3,4) f ml by (simp add: step_def)
    show "\<exists>p'. exec s [ByFetcher i (FFetch w), ByFetcher i FUnwind, ByFetcher i FDie] p
                       = Some p'
                  \<and> crashed p' = Some LogPanic \<and> (\<forall>a. step s a p' = None)"
      using assms(2,3) pair [OF f] ml wg f by (intro panicking_run) simp_all
  qed
  have unwind: "snd (fetchers p ! i) = FPanicking e \<longrightarrow>
          step s (ByFetcher i FUnwind) p
            = Some (set_fetcher i (FDying e) (p\<lparr>downloadWaitGroup := downloadWaitGroup p - 1\<rparr>))"
    using assms(2,3) wg by (auto simp: step_def wg_Done_def)
  have die: "snd (fetchers p ! i) = FDying e \<longrightarrow>
          step s (ByFetcher i FDie) p = Some (p\<lparr>crashed := Some e\<rparr>)
        \<and> (\<forall>a. step s a (p\<lparr>crashed := Some e\<rparr>) = None)"
    using assms(2,3) by (simp add: step_def)
  note ru = rest_unchanged_set_fetcher [OF assms(2)]
  show ?thesis
    by (intro conjI blank rec readmax writemax ret ru net unwind die)
qed

theorem fetch_failure_recovery_witness:
  "(\<exists>p. exec two_feeds start_first (init two_feeds) = Some p
      \<and> (\<exists>p'. exec two_feeds [ByFetcher 0 (FFetch malformed_payload), ByFetcher 0 FReadMax,
                               ByFetcher 0 FWriteMax, ByFetcher 0 FReturn] p = Some p'
             \<and> snd (fetchers p' ! 0) = FDone \<and> fetchers p' ! 1 = (''cats'', FStart)
             \<and> crashed p' = None \<and> bar_max p' = 1 \<and> downloadWaitGroup p' = 1)
      \<and> (\<exists>p'. exec two_feeds [ByFetcher 0 (FFetch network_down), ByFetcher 0 FUnwind,
                               ByFetcher 0 FDie] p = Some p'
             \<and> crashed p' = Some LogPanic \<and> (\<forall>a. step two_feeds a p' = None)))
   \<and> (\<exists>p. exec blank_feed start_first (init blank_feed) = Some p
      \<and> (\<exists>p'. exec blank_feed [ByFetcher 0 (FFetch network_down), ByFetcher 0 FReadMax,
                                ByFetcher 0 FWriteMax, ByFetcher 0 FReturn] p = Some p'
             \<and> snd (fetchers p' ! 0) = FDone \<and> fetchers p' ! 1 = (''cats'', FStart)
             \<and> crashed p' = None \<and> bar_max p' = 1))
   \<and> (\<exists>p. exec two_feeds racing_start (init two_feeds) = Some p \<and> bar_max p = 3
      \<and> (\<exists>p'. step two_feeds (ByFetcher 1 FWriteMax) p = Some p' \<and> bar_max p' = 1
             \<and> snd (fetchers p' ! 1) = FLoop []))"
proof -
  obtain p where e: "exec two_feeds start_first (init two_feeds) = Some p"
    and fs: "fetchers p = [(''pics'', FGather), (''cats'', FStart)]"
    and c: "crashed p = None" and b: "bar_max p = 1" and g: "downloadWaitGroup p = 2"
    using start_first_result by auto
  have i: "0 < length (fetchers p)" and sub: "fst (fetchers p ! 0) = ''pics''"
    and at: "snd (fetchers p ! 0) = FGather"
    by (simp_all add: fs)
  have tr: "strings_TrimSpace ''pics'' \<noteq> []"
    by (simp add: strings_TrimSpace_def space_runes_def trim_left.simps)
  have mal: "gatherRedditFeed malformed_payload two_feeds ''pics''
      = Inr (\<lparr>Listings_Data = None\<rparr>, True)"
    using tr by (simp add: gatherRedditFeed_def UnmarshalListing_def malformed_payload_def
        example_world_def)
  have down: "new_request_ok network_down (determineRedditUrl two_feeds ''pics'')"
    "client_Do network_down (determineRedditUrl two_feeds ''pics'') = None"
    by (simp_all add: network_down_def example_world_def)
  from fetch_failure_recovery [OF e i c sub, where w = malformed_payload
      and l = "\<lparr>Listings_Data = None\<rparr>" and ids = Map.empty and m = 1 and n = 1
      and f = FDone and c = 0 and e = LogPanic] mal at
  obtain p1 where r1: "exec two_feeds [ByFetcher 0 (FFetch malformed_payload), ByFetcher 0 FReadMax,
        ByFetcher 0 FWriteMax, ByFetcher 0 FReturn] p = Some p1"
    "snd (fetchers p1 ! 0) = FDone" "rest_unchanged 0 p p1" "bar_max p1 = bar_max p"
    "downloadWaitGroup p1 = downloadWaitGroup p - 1"
    by (auto simp del: exec.simps)
  have r1': "fetchers p1 ! 1 = (''cats'', FStart)" "crashed p1 = None"
    using r1(3) fs c by (simp_all add: rest_unchanged_def)
  from fetch_failure_recovery [OF e i c sub, where w = network_down
      and l = "\<lparr>Listings_Data = None\<rparr>" and ids = Map.empty and m = 1 and n = 1
      and f = FDone and c = 0 and e = LogPanic] tr down at
  obtain p2 where r2: "exec two_feeds [ByFetcher 0 (FFetch network_down), ByFetcher 0 FUnwind,
        ByFetcher 0 FDie] p = Some p2" "crashed p2 = Some LogPanic"
    "\<forall>a. step two_feeds a p2 = None"
    by (auto simp del: exec.simps)
  have first: "\<exists>p. exec two_feeds start_first (init two_feeds) = Some p
      \<and> (\<exists>p'. exec two_feeds [ByFetcher 0 (FFetch malformed_payload), ByFetcher 0 FReadMax,
                               ByFetcher 0 FWriteMax, ByFetcher 0 FReturn] p = Some p'
             \<and> snd (fetchers p' ! 0) = FDone \<and> fetchers p' ! 1 = (''cats'', FStart)
             \<and> crashed p' = None \<and> bar_max p' = 1 \<and> downloadWaitGroup p' = 1)
      \<and> (\<exists>p'. exec two_feeds [ByFetcher 0 (FFetch network_down), ByFetcher 0 FUnwind,
                               ByFetcher 0 FDie] p = Some p'
             \<and> crashed p' = Some LogPanic \<and> (\<forall>a. step two_feeds a p' = None))"
    using e r1 r1' r2 b g by (intro exI [of _ p] conjI exI [of _ p1] exI [of _ p2]) simp_all
  obtain q where eq: "exec blank_feed start_first (init blank_feed) = Some q"
    and fq: "fetchers q = [('' '', FGather), (''cats'', FStart)]"
    and cq: "crashed q = None" and bq: "bar_max q = 1"
    using start_first_blank_result by auto
  have iq: "0 < length (fetchers q)" and subq: "fst (fetchers q ! 0) = '' ''"
    and atq: "snd (fetchers q ! 0) = FGather"
    by (simp_all add: fq)
  have trq: "strings_TrimSpace '' '' = []"
    by (simp add: strings_TrimSpace_def space_runes_def trim_left.simps)
  from fetch_failure_recovery [OF eq iq cq subq, where w = network_down
      and l = "\<lparr>Listings_Data = None\<rparr>" and ids = Map.empty and m = 1 and n = 1
      and f = FDone and c = 0 and e = LogPanic] trq
  have gq: "gatherRedditFeed network_down blank_feed '' '' = Inr (\<lparr>Listings_Data = None\<rparr>, True)"
    by simp
  from fetch_failure_recovery [OF eq iq cq subq, where w = network_down
      and l = "\<lparr>Listings_Data = None\<rparr>" and ids = Map.empty and m = 1 and n = 1
      and f = FDone and c = 0 and e = LogPanic] gq atq
  obtain q1 where s1: "exec blank_feed [ByFetcher 0 (FFetch network_down), ByFetcher 0 FReadMax,
        ByFetcher 0 FWriteMax, ByFetcher 0 FReturn] q = Some q1"
    "snd (fetchers q1 ! 0) = FDone" "rest_unchanged 0 q q1" "bar_max q1 = bar_max q"
    by (auto simp del: exec.simps)
  have s1': "fetchers q1 ! 1 = (''cats'', FStart)" "crashed q1 = None"
    using s1(3) fq cq by (simp_all add: rest_unchanged_def)
  have second: "\<exists>p. exec blank_feed start_first (init blank_feed) = Some p
      \<and> (\<exists>p'. exec blank_feed [ByFetcher 0 (FFetch network_down), ByFetcher 0 FReadMax,
                                ByFetcher 0 FWriteMax, ByFetcher 0 FReturn] p = Some p'
             \<and> snd (fetchers p' ! 0) = FDone \<and> fetchers p' ! 1 = (''cats'', FStart)
             \<and> crashed p' = None \<and> bar_max p' = 1)"
    using eq s1 s1' bq by (intro exI [of _ q] conjI exI [of _ q1]) simp_all
  obtain r where er: "exec two_feeds racing_start (init two_feeds) = Some r"
    and fr: "snd (fetchers r ! 1) = FChangeMax 1 []" "length (fetchers r) = 2"
    and cr: "crashed r = None" and br: "bar_max r = 3"
    using racing_start_result by auto
  have ir: "1 < length (fetchers r)" by (simp add: fr)
  from fetch_failure_recovery [OF er ir cr refl, where w = network_down
      and l = "\<lparr>Listings_Data = None\<rparr>" and ids = Map.empty and m = 1 and n = 1
      and f = FDone and c = 0 and e = LogPanic] fr(1)
  have wr: "step two_feeds (ByFetcher 1 FWriteMax) r
      = Some (set_fetcher 1 (FLoop []) (r\<lparr>bar_max := 1\<rparr>))"
    by simp
  have third: "\<exists>p. exec two_feeds racing_start (init two_feeds) = Some p \<and> bar_max p = 3
      \<and> (\<exists>p'. step two_feeds (ByFetcher 1 FWriteMax) p = Some p' \<and> bar_max p' = 1
             \<and> snd (fetchers p' ! 1) = FLoop [])"
    using er br wr ir by (intro exI [of _ r] conjI exI [of _ "set_fetcher 1 (FLoop []) (r\<lparr>bar_max := 1\<rparr>)"])
      (simp_all add: set_fetcher_def)
  from first second third show ?thesis by (intro conjI)
qed

text \<open>
  C3. In every state the program reaches: when the download queue is closed, every feed
  has its fetcher and every fetcher has called \<open>Done\<close> (it returned, or it panicked and
  no longer sends); when the message stream is closed, the queue is closed,
  \<open>downloadImages\<close> has returned and every download goroutine has finished; and the
  process has not ended by a send on a closed channel. A send on a closed channel is an
  action of the model that ends the process in that way, so no schedule makes one.
\<close>

theorem staged_shutdown:
  assumes "exec s acts (init s) = Some p"
  shows "(queue_closed p \<longrightarrow>
            length (fetchers p) = length (Subreddits (scrapingOptions s))
            \<and> (\<forall>f \<in> set (fetchers p). \<not> fetching (snd f)))
       \<and> (messages_closed p \<longrightarrow>
            queue_closed p \<and> dispatcher_at p = DEnd
            \<and> (\<forall>v \<in> set (workers p). \<not> working (snd v)))
       \<and> crashed p \<noteq> Some SendOnClosedChannel"
proof -
  have ok: "pipeline_ok s p" using assms by (rule reachable_ok)
  then have c: "coordinator_ok s p" and d: "dispatcher_ok s p" and n: "no_misuse p"
    by (simp_all add: pipeline_ok_def)
  have q: "queue_closed p \<Longrightarrow>
      length (fetchers p) = length (Subreddits (scrapingOptions s))
      \<and> count_where fetching (fetchers p) = 0"
    using c by (cases "coordinator_at p") (auto simp: coordinator_ok_def)
  have m: "messages_closed p \<Longrightarrow>
      queue_closed p \<and> dispatcher_at p = DEnd \<and> count_where working (workers p) = 0"
    using d by (cases "dispatcher_at p") (auto simp: dispatcher_ok_def)
  show ?thesis
    using q m n by (auto simp: no_misuse_def dest: count_where_zero)
qed

theorem staged_shutdown_witness:
  "\<exists>p. exec (example_scraper ''out'' False) complete_run (init (example_scraper ''out'' False)) = Some p
     \<and> queue_closed p \<and> messages_closed p \<and> dispatcher_at p = DEnd
     \<and> length (fetchers p) = 1 \<and> map snd (fetchers p) = [FDone]
     \<and> map snd (workers p) = [WExited] \<and> crashed p \<noteq> Some SendOnClosedChannel"
proof -
  obtain p where e: "exec (example_scraper ''out'' False) complete_run
      (init (example_scraper ''out'' False)) = Some p"
    and r: "messages_closed p" "queue_closed p" "map snd (fetchers p) = [FDone]"
      "map snd (workers p) = [WExited]"
    using complete_run_result by auto
  from staged_shutdown [OF e] r
  have "dispatcher_at p = DEnd" "length (fetchers p) = 1" "crashed p \<noteq> Some SendOnClosedChannel"
    by (simp_all add: example_scraper_def)
  with e r show ?thesis by auto
qed

text \<open>
  C4. The claim: the parsing stage handles any combination of absent fields without
  crashing. The code tests the domain and the post hint for nil and dereferences the
  other fields untested: an entry with an imgur domain and no URL, an entry with a URL
  and no author, and an entry without its data object each end in a nil pointer
  dereference.
\<close>

theorem absent_field_panics:
  "parseLinksFromListings
     \<lparr>Listings_Data = Some \<lparr>Dist = None, Children =
        [\<lparr>Child_Data = Some \<lparr>Title = None, Domain = Some ''i.imgur.com'', ID = None,
           AuthorName = None, Permalink = None, PostHint = None, URL = None,
           Subreddit = None\<rparr>\<rparr>]\<rparr>\<rparr> = Inl NilPointerDereference
   \<and> parseLinksFromListings
     \<lparr>Listings_Data = Some \<lparr>Dist = None, Children =
        [\<lparr>Child_Data = Some \<lparr>Title = Some ''a title'', Domain = Some ''i.imgur.com'',
           ID = Some ''t3'', AuthorName = None, Permalink = Some ''/r/pics/1'',
           PostHint = Some ''image'', URL = Some ''https://i.imgur.com/a.jpg'',
           Subreddit = Some ''pics''\<rparr>\<rparr>]\<rparr>\<rparr> = Inl NilPointerDereference
   \<and> parseLinksFromListings
     \<lparr>Listings_Data = Some \<lparr>Dist = None, Children = [\<lparr>Child_Data = None\<rparr>]\<rparr>\<rparr>
       = Inl NilPointerDereference"
  by (simp add: parseLinksFromListings_def redditChildToImage_def)

text \<open>
  C5. The claim: the finished counters add up to the scheduled total, and never exceed
  it. The scheduled total is the maximum of the progress bar, which \<open>Start\<close> creates
  with the value 1 and every fetcher raises by the number of its links. A complete run
  of one feed with one image ends with the summary of 2 images processed and 1
  downloaded. And \<open>GetMax\<close> and \<open>ChangeMax\<close> are two calls: when two fetchers both read
  the maximum before either writes it, one addition is lost, and here two images are
  downloaded while the maximum is 1.
\<close>

theorem scheduled_total_is_wrong:
  "(\<exists>p. exec (example_scraper ''out'' False) complete_run (init (example_scraper ''out'' False)) = Some p
      \<and> messages_closed p \<and> summary p = Some (2, 1, 0, 0))
   \<and> (\<exists>p. exec two_feeds racing_run (init two_feeds) = Some p
      \<and> bar_max p = 1
      \<and> downloaded (counts p) + skipped (counts p) + failed (counts p) = 2)"
  using complete_run_result racing_run_result by auto



text \<open>
  C7. The claim: with root-folder-only the file goes to the output directory itself,
  also when the feed name occurs inside the output directory's path. The worker
  removes the first occurrence of the feed name from the joined path: for the output
  directory \<open>./cats_pictures\<close> and the feed \<open>cats\<close> the file is written under
  \<open>_pictures/cats\<close>, while the fetcher has created \<open>./cats_pictures\<close>.
\<close>

theorem root_only_path_drops_wrong_part:
  "image_path (example_scraper ''./cats_pictures'' True)
     (worker_outDir (example_scraper ''./cats_pictures'' True)
        (zero_Image\<lparr>link := ''https://i.imgur.com/a.jpg'', subreddit := ''cats''\<rparr>))
     (zero_Image\<lparr>link := ''https://i.imgur.com/a.jpg'', subreddit := ''cats''\<rparr>)
     = ''_pictures/cats/a.jpg''
   \<and> metadata_dir (example_scraper ''./cats_pictures'' True) ''cats'' = ''./cats_pictures''
   \<and> path_Join [''./cats_pictures'', ''a.jpg''] = ''cats_pictures/a.jpg''"
  by (simp add: image_path_def worker_outDir_def example_scraper_def zero_Image_def
      rewrite_link_def strings_HasSuffix_def path_Join_def path_Clean_def clean_step_def
      metadata_dir_def suffix_def)

text \<open>
  C8. When \<open>os.Stat\<close> finds the resolved path, \<open>downloadImage\<close> sends the pending
  message and skipped, and its only outside call is that \<open>Stat\<close>: no file is created
  and no request is made. So when the resolved paths of all the images of a run exist,
  the counters of \<open>Start\<close> end at no download, no failure and one skip per image, in
  whatever order the messages arrive.
\<close>

theorem existing_file_is_skipped:
  "(\<not> stat_IsNotExist w (image_path s outDir img) \<longrightarrow>
      downloadImage w s outDir img =
        \<lparr>msgs = [(img, DOWNLOADING), (rewrite_link img, SKIPPED)],
         calls = [Stat (image_path s outDir img)], fatal = False\<rparr>)
   \<and> ((\<forall>img \<in> set imgs. \<not> stat_IsNotExist w (image_path s (worker_outDir s img) img)) \<longrightarrow>
        (\<forall>ms. mset ms
               = mset (concat (map (\<lambda>img. msgs (downloadImage w s (worker_outDir s img) img)) imgs))
           \<longrightarrow> Start_loop ms \<lparr>downloaded = 0, skipped = 0, failed = 0\<rparr>
                = \<lparr>downloaded = 0, skipped = int (length imgs), failed = 0\<rparr>))"
proof -
  have run: "Start_loop ms \<lparr>downloaded = 0, skipped = 0, failed = 0\<rparr>
                = \<lparr>downloaded = 0, skipped = int (length imgs), failed = 0\<rparr>"
    if ex: "\<forall>img \<in> set imgs. \<not> stat_IsNotExist w (image_path s (worker_outDir s img) img)"
      and ms: "mset ms
               = mset (concat (map (\<lambda>img. msgs (downloadImage w s (worker_outDir s img) img)) imgs))"
    for ms
  proof -
    have "length (filter (\<lambda>m. snd m = st) ms)
            = (if st = SKIPPED \<or> st = DOWNLOADING then length imgs else 0)" for st
      using filter_length_mset [OF ms] all_skipped_msgs [OF ex] by simp
    then show ?thesis by (simp add: Start_loop_counts)
  qed
  show ?thesis using downloadImage_existing run by blast
qed

theorem existing_file_is_skipped_witness:
  "downloadImage ((example_world \<lparr>Listings_Data = None\<rparr>)\<lparr>stat_IsNotExist := (\<lambda>p. False)\<rparr>)
       (example_scraper ''out'' False) ''out/pics''
       (zero_Image\<lparr>link := ''https://i.imgur.com/a.jpg'', subreddit := ''pics''\<rparr>)
     = \<lparr>msgs = [(zero_Image\<lparr>link := ''https://i.imgur.com/a.jpg'', subreddit := ''pics''\<rparr>, DOWNLOADING),
                (zero_Image\<lparr>link := ''https://i.imgur.com/a.jpg'', subreddit := ''pics''\<rparr>, SKIPPED)],
        calls = [Stat ''out/pics/a.jpg''], fatal = False\<rparr>
   \<and> Start_loop
        (msgs (downloadImage ((example_world \<lparr>Listings_Data = None\<rparr>)\<lparr>stat_IsNotExist := (\<lambda>p. False)\<rparr>)
           (example_scraper ''out'' False) ''out/pics''
           (zero_Image\<lparr>link := ''https://i.imgur.com/a.jpg'', subreddit := ''pics''\<rparr>)))
        \<lparr>downloaded = 0, skipped = 0, failed = 0\<rparr>
     = \<lparr>downloaded = 0, skipped = 1, failed = 0\<rparr>"
proof -
  define w where "w = (example_world \<lparr>Listings_Data = None\<rparr>)\<lparr>stat_IsNotExist := (\<lambda>p. False)\<rparr>"
  define s where "s = example_scraper ''out'' False"
  define img where "img = zero_Image\<lparr>link := ''https://i.imgur.com/a.jpg'', subreddit := ''pics''\<rparr>"
  have ne: "\<And>p. \<not> stat_IsNotExist w p" by (simp add: w_def example_world_def)
  have od: "worker_outDir s img = ''out/pics''"
    by (simp add: worker_outDir_def s_def img_def example_scraper_def path_Join_def
        path_Clean_def clean_step_def)
  have ip: "image_path s ''out/pics'' img = ''out/pics/a.jpg''"
    by (simp add: image_path_def s_def img_def example_scraper_def zero_Image_def
        rewrite_link_def strings_HasSuffix_def suffix_def path_Join_def path_Clean_def
        clean_step_def)
  have rl: "rewrite_link img = img"
    by (simp add: rewrite_link_def img_def strings_HasSuffix_def suffix_def)
  have all: "\<forall>i \<in> set [img]. \<not> stat_IsNotExist w (image_path s (worker_outDir s i) i)"
    using ne by simp
  note t = existing_file_is_skipped [of w s "''out/pics''" img "[img]"]
  have first: "downloadImage w s ''out/pics'' img
      = \<lparr>msgs = [(img, DOWNLOADING), (img, SKIPPED)], calls = [Stat ''out/pics/a.jpg''],
         fatal = False\<rparr>"
    using t ne ip rl by simp
  have "Start_loop (concat (map (\<lambda>i. msgs (downloadImage w s (worker_outDir s i) i)) [img]))
          \<lparr>downloaded = 0, skipped = 0, failed = 0\<rparr>
        = \<lparr>downloaded = 0, skipped = int (length [img]), failed = 0\<rparr>"
    using t all by blast
  then have second: "Start_loop (msgs (downloadImage w s ''out/pics'' img))
          \<lparr>downloaded = 0, skipped = 0, failed = 0\<rparr>
        = \<lparr>downloaded = 0, skipped = 1, failed = 0\<rparr>"
    by (simp add: od)
  show ?thesis using first second unfolding w_def s_def img_def by (rule conjI)
qed

text \<open>
  C9. A link that ends in \<open>gifv\<close> has exactly these four bytes replaced by \<open>mp4\<close>;
  any other link is unchanged, and no other field of the image changes. The outside
  calls of \<open>downloadImage\<close> are, in order, \<open>Stat\<close> and \<open>Create\<close> of the path whose
  final segment is the final segment of the rewritten link (it ends in \<open>mp4\<close>), the
  GET of the rewritten link, the copy and the closes, cut short after the first that
  fails or finds the file: so when the file does not exist and can be created, the
  first three calls are \<open>Stat\<close>, \<open>Create\<close> and the GET of the link with \<open>mp4\<close>. The
  pending message carries the image as it was dequeued, sent before the rewrite; the
  final message carries the rewritten one.
\<close>

theorem gifv_link_is_rewritten:
  "(strings_HasSuffix (link img) ''gifv'' \<longrightarrow>
      link img = take (length (link img) - 4) (link img) @ ''gifv''
      \<and> link (rewrite_link img) = take (length (link img) - 4) (link img) @ ''mp4''
      \<and> suffix ''mp4'' (final_segment (link (rewrite_link img)))
      \<and> final_segment (image_path s outDir img) = final_segment (link (rewrite_link img))
      \<and> (stat_IsNotExist w (image_path s outDir img) \<and> os_Create_ok w (image_path s outDir img)
           \<longrightarrow> take 3 (calls (downloadImage w s outDir img))
                 = [Stat (image_path s outDir img), Create (image_path s outDir img),
                    HttpGet (take (length (link img) - 4) (link img) @ ''mp4'')]))
   \<and> (\<not> strings_HasSuffix (link img) ''gifv'' \<longrightarrow> rewrite_link img = img)
   \<and> rewrite_link img = img\<lparr>link := link (rewrite_link img)\<rparr>
   \<and> (\<forall>c \<in> set (calls (downloadImage w s outDir img)).
         c = Stat (image_path s outDir img) \<or> c = Create (image_path s outDir img)
         \<or> c = HttpGet (link (rewrite_link img)) \<or> c = Copy (image_path s outDir img)
         \<or> c = CloseBody (link (rewrite_link img)) \<or> c = CloseFile (image_path s outDir img))
   \<and> calls (downloadImage w s outDir img)
       = (if \<not> stat_IsNotExist w (image_path s outDir img)
          then [Stat (image_path s outDir img)]
          else if \<not> os_Create_ok w (image_path s outDir img)
          then [Stat (image_path s outDir img), Create (image_path s outDir img)]
          else if \<not> http_Get_ok w (link (rewrite_link img))
          then [Stat (image_path s outDir img), Create (image_path s outDir img),
                HttpGet (link (rewrite_link img)), CloseFile (image_path s outDir img)]
          else [Stat (image_path s outDir img), Create (image_path s outDir img),
                HttpGet (link (rewrite_link img)), Copy (image_path s outDir img),
                CloseBody (link (rewrite_link img))]
               @ (if body_Close_ok w (link (rewrite_link img))
                  then [CloseFile (image_path s outDir img)] else []))
   \<and> map fst (msgs (downloadImage w s outDir img)) = [img, rewrite_link img]"
proof -
  have gifv: "link img = take (length (link img) - 4) (link img) @ ''gifv''
      \<and> link (rewrite_link img) = take (length (link img) - 4) (link img) @ ''mp4''
      \<and> suffix ''mp4'' (final_segment (link (rewrite_link img)))
      \<and> final_segment (image_path s outDir img) = final_segment (link (rewrite_link img))
      \<and> (stat_IsNotExist w (image_path s outDir img) \<and> os_Create_ok w (image_path s outDir img)
           \<longrightarrow> take 3 (calls (downloadImage w s outDir img))
                 = [Stat (image_path s outDir img), Create (image_path s outDir img),
                    HttpGet (take (length (link img) - 4) (link img) @ ''mp4'')])"
    if h: "strings_HasSuffix (link img) ''gifv''"
  proof -
    define pre where "pre = take (length (link img) - 4) (link img)"
    from h obtain q where q: "link img = q @ ''gifv''"
      by (auto simp: strings_HasSuffix_def suffix_def)
    then have l: "link img = pre @ ''gifv''" by (simp add: pre_def)
    have r: "link (rewrite_link img) = pre @ ''mp4''"
      using h by (simp add: rewrite_link_def pre_def)
    define n where "n = final_segment (pre @ ''mp4'')"
    have n: "n = last (strings_Split CHR ''/'' pre) @ ''mp4''"
      unfolding n_def final_segment_def by (rule strings_Split_last_append) simp
    have free: "CHR ''/'' \<notin> set n"
      unfolding n_def final_segment_def by (rule strings_Split_last_free)
    have ne: "n \<noteq> []" "n \<noteq> ''.''" "n \<noteq> ''..''"
      using n by (auto simp: append_eq_Cons_conv)
    have "image_path s outDir img
        = path_Join [if RootFolderOnly (scrapingOptions s)
                     then strings_Replace1 outDir (subreddit img) [] else outDir, n]"
      by (simp add: image_path_def Let_def r n_def final_segment_def)
    then have fs: "final_segment (image_path s outDir img) = n"
      using path_Join_last [OF ne(1) free ne(2,3)] by (simp add: final_segment_def)
    have sn: "suffix ''mp4'' n" using n by (simp add: suffix_def)
    have rn: "final_segment (link (rewrite_link img)) = n" by (simp only: r n_def)
    have c1: "link img = take (length (link img) - 4) (link img) @ ''gifv''"
      using l unfolding pre_def .
    have c2: "link (rewrite_link img) = take (length (link img) - 4) (link img) @ ''mp4''"
      using r unfolding pre_def .
    have c3: "suffix ''mp4'' (final_segment (link (rewrite_link img)))"
      using sn by (simp only: rn)
    have c4: "final_segment (image_path s outDir img) = final_segment (link (rewrite_link img))"
      using fs by (simp only: rn)
    have c5: "stat_IsNotExist w (image_path s outDir img) \<and> os_Create_ok w (image_path s outDir img)
           \<longrightarrow> take 3 (calls (downloadImage w s outDir img))
                 = [Stat (image_path s outDir img), Create (image_path s outDir img),
                    HttpGet (take (length (link img) - 4) (link img) @ ''mp4'')]"
      by (simp add: downloadImage_def Let_def c2 [symmetric])
    show ?thesis by (intro conjI c1 c2 c3 c4 c5)
  qed
  have other: "\<not> strings_HasSuffix (link img) ''gifv'' \<Longrightarrow> rewrite_link img = img"
    by (simp add: rewrite_link_def)
  have rest: "rewrite_link img = img\<lparr>link := link (rewrite_link img)\<rparr>"
    by (simp add: rewrite_link_def)
  have calls: "\<forall>c \<in> set (calls (downloadImage w s outDir img)).
         c = Stat (image_path s outDir img) \<or> c = Create (image_path s outDir img)
         \<or> c = HttpGet (link (rewrite_link img)) \<or> c = Copy (image_path s outDir img)
         \<or> c = CloseBody (link (rewrite_link img)) \<or> c = CloseFile (image_path s outDir img)"
    by (simp add: downloadImage_def Let_def)
  have exact: "calls (downloadImage w s outDir img)
       = (if \<not> stat_IsNotExist w (image_path s outDir img)
          then [Stat (image_path s outDir img)]
          else if \<not> os_Create_ok w (image_path s outDir img)
          then [Stat (image_path s outDir img), Create (image_path s outDir img)]
          else if \<not> http_Get_ok w (link (rewrite_link img))
          then [Stat (image_path s outDir img), Create (image_path s outDir img),
                HttpGet (link (rewrite_link img)), CloseFile (image_path s outDir img)]
          else [Stat (image_path s outDir img), Create (image_path s outDir img),
                HttpGet (link (rewrite_link img)), Copy (image_path s outDir img),
                CloseBody (link (rewrite_link img))]
               @ (if body_Close_ok w (link (rewrite_link img))
                  then [CloseFile (image_path s outDir img)] else []))"
    by (simp add: downloadImage_def Let_def)
  have carried: "map fst (msgs (downloadImage w s outDir img)) = [img, rewrite_link img]"
    by (simp add: downloadImage_def Let_def)
  show ?thesis
    by (rule conjI, rule impI, erule gifv, rule conjI, rule impI, erule other,
        rule conjI, rule rest, rule conjI, rule calls, rule conjI, rule exact, rule carried)
qed

theorem gifv_link_is_rewritten_witness:
  "link (rewrite_link (zero_Image\<lparr>link := ''https://i.imgur.com/a.gifv'', subreddit := ''pics''\<rparr>))
     = ''https://i.imgur.com/a.mp4''
   \<and> final_segment (image_path (example_scraper ''out'' False) ''out/pics''
        (zero_Image\<lparr>link := ''https://i.imgur.com/a.gifv'', subreddit := ''pics''\<rparr>)) = ''a.mp4''
   \<and> take 3 (calls (downloadImage one_image (example_scraper ''out'' False) ''out/pics''
        (zero_Image\<lparr>link := ''https://i.imgur.com/a.gifv'', subreddit := ''pics''\<rparr>)))
     = [Stat ''out/pics/a.mp4'', Create ''out/pics/a.mp4'', HttpGet ''https://i.imgur.com/a.mp4'']
   \<and> rewrite_link (zero_Image\<lparr>link := ''https://i.imgur.com/a.jpg''\<rparr>)
     = zero_Image\<lparr>link := ''https://i.imgur.com/a.jpg''\<rparr>"
proof -
  define img where "img = zero_Image\<lparr>link := ''https://i.imgur.com/a.gifv'', subreddit := ''pics''\<rparr>"
  define s where "s = example_scraper ''out'' False"
  have h: "strings_HasSuffix (link img) ''gifv''"
    by (simp add: img_def strings_HasSuffix_def suffix_def)
  have k: "\<not> strings_HasSuffix (link (zero_Image\<lparr>link := ''https://i.imgur.com/a.jpg''\<rparr>)) ''gifv''"
    by (simp add: strings_HasSuffix_def suffix_def)
  have wd: "\<And>p. stat_IsNotExist one_image p" "\<And>p. os_Create_ok one_image p"
    by (simp_all add: one_image_def example_world_def)
  have ip: "image_path s ''out/pics'' img = ''out/pics/a.mp4''"
    by (simp add: image_path_def s_def img_def example_scraper_def zero_Image_def
        rewrite_link_def strings_HasSuffix_def suffix_def path_Join_def path_Clean_def
        clean_step_def)
  from gifv_link_is_rewritten [of img s "''out/pics''" one_image] h wd
  have a: "link (rewrite_link img) = take (length (link img) - 4) (link img) @ ''mp4''"
    and b: "final_segment (image_path s ''out/pics'' img)
        = final_segment (link (rewrite_link img))"
    and t: "take 3 (calls (downloadImage one_image s ''out/pics'' img))
        = [Stat (image_path s ''out/pics'' img), Create (image_path s ''out/pics'' img),
           HttpGet (take (length (link img) - 4) (link img) @ ''mp4'')]"
    by simp_all
  have a': "link (rewrite_link img) = ''https://i.imgur.com/a.mp4''"
    using a by (simp add: img_def)
  have b': "final_segment (image_path s ''out/pics'' img) = ''a.mp4''"
    using b a' by (simp add: final_segment_def)
  have t': "take 3 (calls (downloadImage one_image s ''out/pics'' img))
        = [Stat ''out/pics/a.mp4'', Create ''out/pics/a.mp4'', HttpGet ''https://i.imgur.com/a.mp4'']"
    using t a a' by (simp only: ip)
  from gifv_link_is_rewritten [of "zero_Image\<lparr>link := ''https://i.imgur.com/a.jpg''\<rparr>"] k
  have c: "rewrite_link (zero_Image\<lparr>link := ''https://i.imgur.com/a.jpg''\<rparr>)
     = zero_Image\<lparr>link := ''https://i.imgur.com/a.jpg''\<rparr>"
    by simp
  show ?thesis using a' b' t' c unfolding img_def s_def by (intro conjI)
qed

text \<open>
  C10. Whenever \<open>NewScraper\<close> returns a scraper (the page type is a supported one), its
  image limit is 100 for an input above 100 and the input otherwise: a limit of zero
  or below is kept, the 50 being overwritten.
\<close>

theorem NewScraper_ImageLimit:
  assumes "PageType options \<in> set supported_page_types"
  shows "\<exists>s. NewScraper options = Inr s
           \<and> ImageLimit (scrapingOptions s)
               = (if ImageLimit options > 100 then 100 else ImageLimit options)"
  using assms by (simp add: NewScraper_def Let_def)

theorem NewScraper_ImageLimit_witness:
  "\<exists>s. NewScraper (zero_Options\<lparr>PageType := ''hot'', ImageLimit := - 3\<rparr>) = Inr s
       \<and> ImageLimit (scrapingOptions s) = - 3"
  using NewScraper_ImageLimit [of "zero_Options\<lparr>PageType := ''hot'', ImageLimit := - 3\<rparr>"]
  by (simp add: supported_page_types_def zero_Options_def)

end
